theory Spec2Isabelle
  imports Complex_Main "HOL-Library.AList" "HOL-Library.Multiset"
begin

section \<open>Python values used by \<open>Utilities/preprocessing.py\<close>\<close>

text \<open>
  Timestamps are whole seconds since 1970-01-01T00:00:00Z (the XML date format
  \<open>%Y-%m-%d %H:%M:%S\<close> has second resolution), so that comparison and subtraction of
  two UTC datetimes are comparison and subtraction of integers.
\<close>

type_synonym datetime = int

datatype error =
  IndexError | KeyError | ValueError | TypeError | AttributeError
  | UnboundLocalError | ZeroDivisionError

text \<open>An element of \<open>xml.etree.ElementTree\<close>: tag, text (\<open>None\<close> for an empty element), children.\<close>

datatype xml = Element (tag: string) (elem_text: "string option") (children: "xml list")

definition findall :: "string \<Rightarrow> xml \<Rightarrow> xml list" where
  "findall t e = filter (\<lambda>c. tag c = t) (children e)"

text \<open>\<open>xs[i]\<close> for a non-negative index: IndexError out of range.\<close>

definition item :: "'a list \<Rightarrow> nat \<Rightarrow> error + 'a" where
  "item xs i = (if i < length xs then Inr (xs ! i) else Inl IndexError)"

text \<open>\<open>s.split(' ')\<close>: cut at every single space, keeping empty pieces.\<close>

fun split_space :: "string \<Rightarrow> string list" where
  "split_space [] = [[]]"
| "split_space (c # cs) =
     (if c = CHR '' '' then [] # split_space cs
      else (case split_space cs of [] \<Rightarrow> [[c]] | w # ws \<Rightarrow> (c # w) # ws))"

text \<open>
  \<open>s.lower()\<close> is a function of the Python library, defined on all of Unicode. The
  parser takes it as the parameter \<open>str_lower\<close>. On a string of ASCII characters it
  moves the letters A to Z to a to z and leaves every other character as it is:
  \<open>lower_ascii\<close> is that function, and stands for \<open>str_lower\<close> only where the
  strings lowered are ASCII.
\<close>

definition lower_ascii_char :: "char \<Rightarrow> char" where
  "lower_ascii_char c =
     (let k = (of_char c :: nat) in
      if of_char CHR ''A'' \<le> k \<and> k \<le> of_char CHR ''Z'' then char_of (k + 32) else c)"

definition lower_ascii :: "string \<Rightarrow> string" where
  "lower_ascii s = map lower_ascii_char s"

text \<open>\<open>'{}'.format(n)\<close> for a non-negative integer: its decimal digits.\<close>

fun str_nat :: "nat \<Rightarrow> string" where
  "str_nat n =
     (if n < 10 then [char_of (48 + n)]
      else str_nat (n div 10) @ [char_of (48 + n mod 10)])"

declare str_nat.simps [simp del]

text \<open>\<open>'{}_Q{}'.format(skill, session)\<close>\<close>

definition activity_name :: "string \<Rightarrow> nat \<Rightarrow> string" where
  "activity_name skill session = skill @ ''_Q'' @ str_nat session"

section \<open>The XML event parser: \<open>learning_module.import_datashop\<close>\<close>

text \<open>
  The local variables of the first loop. \<open>answers\<close> is the nested dictionary
  user id \<rightarrow> problem name \<rightarrow> time \<rightarrow> list of outcomes, kept as association lists
  in insertion order, as a Python dict iterates. A local variable that has not been
  assigned yet is \<open>None\<close>; reading it raises UnboundLocalError. \<open>printed\<close> collects
  what the loop prints.
\<close>

type_synonym answers_dict =
  "(string option \<times> (string \<times> (datetime \<times> bool list) list) list) list"

record locals =
  answers :: answers_dict
  wait_for_next_context_message :: bool
  anon_id :: "string option option"
  time :: "datetime option"
  problem_name :: "string option"
  is_correct :: "bool option"
  printed :: "string list"

definition initial_locals :: locals where
  "initial_locals =
     \<lparr>answers = [], wait_for_next_context_message = False, anon_id = None,
      time = None, problem_name = None, is_correct = None, printed = []\<rparr>"

text \<open>
  \<open>child.findall('dataset')[0].findall('level')[0].findall('level')[0]
  .findall('problem')[0].findall('name')[0]\<close>
\<close>

definition problem_name_element :: "xml \<Rightarrow> error + xml" where
  "problem_name_element child =
     (case item (findall ''dataset'' child) 0 of Inl e \<Rightarrow> Inl e | Inr dataset \<Rightarrow>
      case item (findall ''level'' dataset) 0 of Inl e \<Rightarrow> Inl e | Inr level1 \<Rightarrow>
      case item (findall ''level'' level1) 0 of Inl e \<Rightarrow> Inl e | Inr level2 \<Rightarrow>
      case item (findall ''problem'' level2) 0 of Inl e \<Rightarrow> Inl e | Inr problem \<Rightarrow>
      item (findall ''name'' problem) 0)"

text \<open>
  The three assignments that register a context in \<open>answers\<close>; an existing
  \<open>answers[anon_id][problem_name][time]\<close> is reset to the empty list.
\<close>

definition register_context ::
  "string option \<Rightarrow> string \<Rightarrow> datetime \<Rightarrow> answers_dict \<Rightarrow> answers_dict" where
  "register_context a p t ans =
     (let ans1 = (if map_of ans a = None then AList.update a [] ans else ans);
          problem = (case map_of ans1 a of None \<Rightarrow> [] | Some d \<Rightarrow> d);
          problem1 = (if map_of problem p = None then AList.update p [] problem else problem);
          times_d = (case map_of problem1 p of None \<Rightarrow> [] | Some d \<Rightarrow> d)
      in AList.update a (AList.update p (AList.update t [] times_d) problem1) ans1)"

text \<open>
  The branch for a \<open>context_message\<close>. \<open>strptime\<close> stands for
  \<open>datetime.datetime.strptime(_, '%Y-%m-%d %H:%M:%S')\<close> followed by the change to UTC;
  it is a parameter, with \<open>None\<close> for the ValueError of a string that is not a date.
\<close>

definition context_message ::
  "(string \<Rightarrow> datetime option) \<Rightarrow> xml \<Rightarrow> locals \<Rightarrow> error + locals" where
  "context_message strptime child s =
     (case item (findall ''meta'' child) 0 of Inl e \<Rightarrow> Inl e | Inr meta \<Rightarrow>
      case item (findall ''user_id'' meta) 0 of Inl e \<Rightarrow> Inl e | Inr user_id \<Rightarrow>
      case item (findall ''time'' meta) 0 of Inl e \<Rightarrow> Inl e | Inr time_el \<Rightarrow>
      case elem_text time_el of None \<Rightarrow> Inl TypeError | Some time_str \<Rightarrow>
      case strptime time_str of None \<Rightarrow> Inl ValueError | Some t \<Rightarrow>
      let s1 = s\<lparr>anon_id := Some (elem_text user_id), time := Some t\<rparr> in
      case problem_name_element child of
        Inl e \<Rightarrow> Inr (s1\<lparr>wait_for_next_context_message := True\<rparr>)
      | Inr name_el \<Rightarrow>
          let s2 = s1\<lparr>wait_for_next_context_message := False\<rparr> in
          case elem_text name_el of None \<Rightarrow> Inl AttributeError | Some full_problem_name \<Rightarrow>
          case item (split_space full_problem_name) 1 of Inl e \<Rightarrow> Inl e | Inr token \<Rightarrow>
          let p = butlast token in
          Inr (s2\<lparr>problem_name := Some p,
                  answers := register_context (elem_text user_id) p t (answers s2)\<rparr>))"

text \<open>
  The branch for a \<open>tutor_message\<close>, in its two statements. First the
  \<open>if\<close>/\<open>elif\<close>/\<open>else\<close> chain on the outcome: a value other than CORRECT or
  INCORRECT prints a line and leaves \<open>is_correct\<close> as it was.
\<close>

definition read_outcome :: "string option \<Rightarrow> locals \<Rightarrow> locals" where
  "read_outcome action_eval s =
     (if action_eval = Some ''CORRECT'' then s\<lparr>is_correct := Some True\<rparr>
      else if action_eval = Some ''INCORRECT'' then s\<lparr>is_correct := Some False\<rparr>
      else s\<lparr>printed := printed s @
               [''Cannot figure out if action was completed correctly or not'']\<rparr>)"

text \<open>
  Then \<open>answers[anon_id][problem_name][time].append(is_correct)\<close>, which stands after
  the chain and runs in every case.
\<close>

definition append_outcome :: "locals \<Rightarrow> error + locals" where
  "append_outcome s =
     (case anon_id s of None \<Rightarrow> Inl UnboundLocalError | Some a \<Rightarrow>
      case map_of (answers s) a of None \<Rightarrow> Inl KeyError | Some problem \<Rightarrow>
      case problem_name s of None \<Rightarrow> Inl UnboundLocalError | Some p \<Rightarrow>
      case map_of problem p of None \<Rightarrow> Inl KeyError | Some times_d \<Rightarrow>
      case time s of None \<Rightarrow> Inl UnboundLocalError | Some t \<Rightarrow>
      case map_of times_d t of None \<Rightarrow> Inl KeyError | Some outcomes \<Rightarrow>
      case is_correct s of None \<Rightarrow> Inl UnboundLocalError | Some b \<Rightarrow>
      Inr (s\<lparr>answers :=
             AList.update a
               (AList.update p (AList.update t (outcomes @ [b]) times_d) problem)
               (answers s)\<rparr>))"

definition tutor_message :: "xml \<Rightarrow> locals \<Rightarrow> error + locals" where
  "tutor_message child s =
     (case item (findall ''action_evaluation'' child) 0 of
        Inl e \<Rightarrow> Inl e
      | Inr ae \<Rightarrow> append_outcome (read_outcome (elem_text ae) s))"

text \<open>One iteration of \<open>for child in root\<close>.\<close>

definition parse_child ::
  "(string \<Rightarrow> datetime option) \<Rightarrow> xml \<Rightarrow> locals \<Rightarrow> error + locals" where
  "parse_child strptime child s =
     (if tag child = ''context_message'' then context_message strptime child s
      else if tag child = ''tool_message'' \<and> \<not> wait_for_next_context_message s then Inr s
      else if tag child = ''tutor_message'' \<and> \<not> wait_for_next_context_message s
           then tutor_message child s
      else Inr s)"

fun parse_children ::
  "(string \<Rightarrow> datetime option) \<Rightarrow> xml list \<Rightarrow> locals \<Rightarrow> error + locals" where
  "parse_children strptime [] s = Inr s"
| "parse_children strptime (child # rest) s =
     (case parse_child strptime child s of
        Inl e \<Rightarrow> Inl e
      | Inr s' \<Rightarrow> parse_children strptime rest s')"

text \<open>
  The second loop fills five lists; \<open>attempt_number\<close> is created with the others and
  never appended to.
\<close>

record columns =
  IDs :: "string option list"
  answer_dates :: "datetime list"
  correct :: "bool list"
  activity_titles :: "string list"
  attempt_number :: "int list"

definition empty_columns :: columns where
  "empty_columns =
     \<lparr>IDs = [], answer_dates = [], correct = [], activity_titles = [], attempt_number = []\<rparr>"

text \<open>
  \<open>self.n_sessions\<close> is the integer the caller gave or the default \<open>np.nan\<close>;
  \<open>range(np.nan)\<close> raises TypeError, \<open>range\<close> of a negative integer is empty.
\<close>

datatype number = Integer int | NaN

definition range_py :: "number \<Rightarrow> error + nat list" where
  "range_py n = (case n of NaN \<Rightarrow> Inl TypeError | Integer k \<Rightarrow> Inr [0..<nat k])"

text \<open>\<open>for session in range(self.n_sessions)\<close>: a later match replaces an earlier one.\<close>

fun match_sessions ::
  "(string \<Rightarrow> string) \<Rightarrow> string \<Rightarrow> string \<Rightarrow> nat list \<Rightarrow> string \<Rightarrow> string" where
  "match_sessions str_lower p skill [] matched_skill = matched_skill"
| "match_sessions str_lower p skill (session # rest) matched_skill =
     (let mixedcase_name = activity_name skill (session + 1) in
      match_sessions str_lower p skill rest
        (if p = str_lower mixedcase_name then mixedcase_name else matched_skill))"

text \<open>\<open>for skill in self.skills\<close>: \<open>range(self.n_sessions)\<close> is evaluated once per skill.\<close>

fun match_skills ::
  "(string \<Rightarrow> string) \<Rightarrow> number \<Rightarrow> string \<Rightarrow> string list \<Rightarrow> string \<Rightarrow> error + string" where
  "match_skills str_lower n p [] matched_skill = Inr matched_skill"
| "match_skills str_lower n p (skill # rest) matched_skill =
     (case range_py n of
        Inl e \<Rightarrow> Inl e
      | Inr sessions \<Rightarrow> match_skills str_lower n p rest (match_sessions str_lower p skill sessions matched_skill))"

text \<open>
  \<open>for time, answers in sorted(times.items()): for is_correct in answers: ...\<close>
  The keys of a dict are distinct, so sorting the items is sorting by time.
\<close>

definition append_rows ::
  "string option \<Rightarrow> string \<Rightarrow> (datetime \<times> bool list) list \<Rightarrow> columns \<Rightarrow> columns" where
  "append_rows a matched_skill times_d cols =
     fold (\<lambda>(t, outcomes) c.
            fold (\<lambda>b c'. c'\<lparr>IDs := IDs c' @ [a],
                            activity_titles := activity_titles c' @ [matched_skill],
                            correct := correct c' @ [b],
                            answer_dates := answer_dates c' @ [t]\<rparr>) outcomes c)
          (sort_key fst times_d) cols"

text \<open>\<open>for problem_name, times in problem.items()\<close>\<close>

fun collect_problems ::
  "(string \<Rightarrow> string) \<Rightarrow> string list \<Rightarrow> number \<Rightarrow> string option \<Rightarrow> (string \<times> (datetime \<times> bool list) list) list
   \<Rightarrow> columns \<Rightarrow> error + columns" where
  "collect_problems str_lower skills n a [] cols = Inr cols"
| "collect_problems str_lower skills n a ((p, times_d) # rest) cols =
     (case match_skills str_lower n p skills [] of
        Inl e \<Rightarrow> Inl e
      | Inr matched_skill \<Rightarrow>
          if matched_skill = [] then collect_problems str_lower skills n a rest cols
          else collect_problems str_lower skills n a rest (append_rows a matched_skill times_d cols))"

text \<open>\<open>for anon_id, problem in answers.items()\<close>\<close>

fun collect_answers ::
  "(string \<Rightarrow> string) \<Rightarrow> string list \<Rightarrow> number \<Rightarrow> answers_dict \<Rightarrow> columns \<Rightarrow> error + columns" where
  "collect_answers str_lower skills n [] cols = Inr cols"
| "collect_answers str_lower skills n ((a, problem) # rest) cols =
     (case collect_problems str_lower skills n a problem cols of
        Inl e \<Rightarrow> Inl e
      | Inr cols' \<Rightarrow> collect_answers str_lower skills n rest cols')"

text \<open>
  A data frame is kept as the list of its rows. \<open>self.xml_data\<close> has the four columns
  Student ID, Date Created, Activity Title and Correct?; \<open>self.raw_data\<close> and
  \<open>self.full_results\<close> have the column Attempt Number as well.
\<close>

record 'id xml_row =
  Student_ID :: 'id
  Date_Created :: datetime
  Activity_Title :: string
  Correct :: bool

record 'id result_row = "'id xml_row" +
  Attempt_Number :: int

definition data_frame :: "columns \<Rightarrow> string option xml_row list" where
  "data_frame c =
     map (\<lambda>(i, d, a, r).
            \<lparr>Student_ID = i, Date_Created = d, Activity_Title = a, Correct = r\<rparr>)
         (zip (IDs c) (zip (answer_dates c) (zip (activity_titles c) (correct c))))"

text \<open>
  \<open>import_datashop\<close> on the children of the root element, for a module with the given
  skills and session count: the lists of the second loop and what was printed, or the
  exception that ends the call.
\<close>

definition datashop_columns ::
  "(string \<Rightarrow> string) \<Rightarrow> string list \<Rightarrow> number \<Rightarrow> (string \<Rightarrow> datetime option) \<Rightarrow> xml list
   \<Rightarrow> error + (columns \<times> string list)" where
  "datashop_columns str_lower skills n strptime events =
     (case parse_children strptime events initial_locals of
        Inl e \<Rightarrow> Inl e
      | Inr s \<Rightarrow>
          (case collect_answers str_lower skills n (answers s) empty_columns of
             Inl e \<Rightarrow> Inl e
           | Inr cols \<Rightarrow> Inr (cols, printed s)))"

definition import_datashop ::
  "(string \<Rightarrow> string) \<Rightarrow> string list \<Rightarrow> number \<Rightarrow> (string \<Rightarrow> datetime option) \<Rightarrow> xml list
   \<Rightarrow> error + string option xml_row list" where
  "import_datashop str_lower skills n strptime events =
     (case datashop_columns str_lower skills n strptime events of
        Inl e \<Rightarrow> Inl e
      | Inr (cols, out) \<Rightarrow> Inr (data_frame cols))"

text \<open>Every user id in \<open>answers\<close> has at least one problem below it.\<close>

definition registered :: "answers_dict \<Rightarrow> bool" where
  "registered ans = list_all (\<lambda>entry. snd entry \<noteq> []) ans"

section \<open>The identity reconciler: \<open>learning_module._infer_mapping_pseudonym_ID\<close>\<close>

text \<open>
  The inner loop over \<open>pseudonym_times\<close> with its \<open>break\<close>: is some raw time less than
  60 seconds away from \<open>xml_time\<close>?
\<close>

definition match_found :: "datetime \<Rightarrow> datetime list \<Rightarrow> bool" where
  "match_found xml_time pseudonym_times =
     list_ex (\<lambda>raw_time. \<bar>xml_time - raw_time\<bar> < 60) pseudonym_times"

definition times_matched :: "datetime list \<Rightarrow> datetime list \<Rightarrow> nat" where
  "times_matched ID_times pseudonym_times =
     length (filter (\<lambda>xml_time. match_found xml_time pseudonym_times) ID_times)"

text \<open>
  \<open>list(self.raw_data[self.raw_data['Student ID'] == pseudonym]['Date Created'])\<close>:
  the raw student IDs are strings (\<open>astype(str)\<close>), compared as strings.
\<close>

definition entries_times :: "string \<Rightarrow> (string, 'more) xml_row_scheme list \<Rightarrow> datetime list" where
  "entries_times k rows = map Date_Created (filter (\<lambda>r. Student_ID r = k) rows)"

text \<open>
  \<open>list(self.xml_data[self.xml_data['Student ID'] == ID]['Date Created'])\<close>: a student
  ID of the XML table is a string or \<open>None\<close> (a \<open>user_id\<close> element without text), and
  the pandas comparison of a column with \<open>None\<close> is false in every row.
\<close>

definition ID_entries_times ::
  "string option \<Rightarrow> (string option, 'more) xml_row_scheme list \<Rightarrow> datetime list" where
  "ID_entries_times k rows =
     map Date_Created (filter (\<lambda>r. k \<noteq> None \<and> Student_ID r = k) rows)"

text \<open>
  \<open>for pseudonym in pseudonyms\<close> for one ID. The mapping is a Python dict, kept as an
  association list; \<open>times_matched / total_times > 0.9\<close> is taken over the rationals
  (the float quotient compares with the float 0.9 the same way for any number of
  timestamps below \<open>10^14\<close>). With no timestamp for the ID the division raises.
\<close>

fun search_pseudonyms ::
  "'id \<Rightarrow> datetime list \<Rightarrow> string list \<Rightarrow> string result_row list
   \<Rightarrow> (string \<times> 'id) list \<Rightarrow> error + (string \<times> 'id) list" where
  "search_pseudonyms k ID_times [] raw_data mapping = Inr mapping"
| "search_pseudonyms k ID_times (pseudonym # rest) raw_data mapping =
     (let pseudonym_times = entries_times pseudonym raw_data;
          matched = times_matched ID_times pseudonym_times;
          total_times = length ID_times
      in if total_times = 0 then Inl ZeroDivisionError
         else if (of_nat matched :: rat) / of_nat total_times > 9 / 10
              then Inr (AList.update pseudonym k mapping)
         else search_pseudonyms k ID_times rest raw_data mapping)"

text \<open>\<open>for ID in IDs\<close>\<close>

fun search_IDs ::
  "string option list \<Rightarrow> string list \<Rightarrow> string option xml_row list \<Rightarrow> string result_row list
   \<Rightarrow> (string \<times> string option) list \<Rightarrow> error + (string \<times> string option) list" where
  "search_IDs [] pseudonyms xml_data raw_data mapping = Inr mapping"
| "search_IDs (k # rest) pseudonyms xml_data raw_data mapping =
     (case search_pseudonyms k (ID_entries_times k xml_data) pseudonyms raw_data mapping of
        Inl e \<Rightarrow> Inl e
      | Inr mapping' \<Rightarrow> search_IDs rest pseudonyms xml_data raw_data mapping')"

text \<open>
  \<open>IDs\<close> and \<open>pseudonyms\<close> are Python sets, whose iteration order is not specified:
  the two lists are the orders in which the sets happen to be iterated, each element
  once. The two loops that print the unmatched names do not change the mapping and
  are left out.
\<close>

definition infer_mapping_pseudonym_ID ::
  "string option list \<Rightarrow> string list \<Rightarrow> string option xml_row list \<Rightarrow> string result_row list
   \<Rightarrow> error + (string \<times> string option) list" where
  "infer_mapping_pseudonym_ID IDs_order pseudonyms_order xml_data raw_data =
     search_IDs IDs_order pseudonyms_order xml_data raw_data []"

text \<open>
  In the words of the specification: the fraction of the ID's timestamps that have
  some timestamp of the pseudonym within the 60-second window.
\<close>

definition match_fraction :: "datetime list \<Rightarrow> datetime list \<Rightarrow> rat" where
  "match_fraction ID_times pseudonym_times =
     of_nat (length (filter (\<lambda>xml_time. \<exists>raw_time \<in> set pseudonym_times.
                                 \<bar>xml_time - raw_time\<bar> < 60) ID_times))
       / of_nat (length ID_times)"

text \<open>The loop of \<open>import_data\<close> that builds \<open>self.full_results\<close> from the raw rows.\<close>

definition unify_results ::
  "(string \<times> 'id) list \<Rightarrow> string result_row list \<Rightarrow> 'id result_row list" where
  "unify_results mapping raw_data =
     concat (map (\<lambda>r. case map_of mapping (Student_ID r) of
                         None \<Rightarrow> []
                       | Some k \<Rightarrow>
                           [\<lparr>Student_ID = k, Date_Created = Date_Created r,
                             Activity_Title = Activity_Title r, Correct = Correct r,
                             Attempt_Number = Attempt_Number r\<rparr>]) raw_data)"

section \<open>The session resolver: \<open>learning_module.infer_n_sessions_from_full_results\<close>\<close>

text \<open>
  \<open>while '{}_Q{}'.format(skill, n_sessions[skill] + 1) in activities: n_sessions[skill] += 1\<close>
  The loop ends because the names of different sessions differ and \<open>activities\<close> is
  finite.
\<close>

function probe :: "string \<Rightarrow> string list \<Rightarrow> nat \<Rightarrow> nat" where
  "probe skill activities n =
     (if activity_name skill (n + 1) \<in> set activities
      then probe skill activities (n + 1) else n)"
  by pat_completeness auto
termination
proof (relation "measure (\<lambda>(skill, activities, n).
                   card {k. n < k \<and> activity_name skill k \<in> set activities})")
  show "wf (measure (\<lambda>(skill, activities, n).
              card {k. n < k \<and> activity_name skill k \<in> set activities}))"
    by simp
next
  fix skill :: string and activities :: "string list" and n :: nat
  assume present: "activity_name skill (n + 1) \<in> set activities"
  let ?later = "\<lambda>m. {k. m < k \<and> activity_name skill k \<in> set activities}"
  have small: "str_nat m = [char_of (48 + m)]" if "m < 10" for m
    using that by (subst str_nat.simps) simp
  have big: "str_nat m = str_nat (m div 10) @ [char_of (48 + m mod 10)]" if "\<not> m < 10" for m
    using that by (subst str_nat.simps) simp
  have nonempty: "0 < length (str_nat m)" for m
    by (subst str_nat.simps) simp
  have one_digit: "m < 10" if "length (str_nat m) = 1" for m
  proof (rule ccontr)
    assume "\<not> m < 10"
    then have "length (str_nat m) = length (str_nat (m div 10)) + 1"
      by (simp add: big)
    with that nonempty [of "m div 10"] show False by simp
  qed
  have digit: "a = b"
    if "a < 10" "b < 10" "char_of (48 + a) = (char_of (48 + b) :: char)" for a b :: nat
  proof -
    from that(3)
    have "(of_char (char_of (48 + a) :: char) :: nat) = of_char (char_of (48 + b) :: char)"
      by simp
    with that(1,2) show ?thesis by (simp add: of_char_of)
  qed
  have decimal: "a = b" if "str_nat a = str_nat b" for a b
    using that
  proof (induction a arbitrary: b rule: str_nat.induct)
    case (1 m)
    show ?case
    proof (cases "m < 10")
      case True
      then have "length (str_nat m) = 1" by (simp add: small)
      with "1.prems" have "b < 10" by (simp add: one_digit)
      with True "1.prems" show ?thesis by (simp add: small digit)
    next
      case False
      have nb: "\<not> b < 10"
      proof
        assume "b < 10"
        then have "length (str_nat b) = 1" by (simp add: small)
        with "1.prems" have "m < 10" by (simp add: one_digit)
        with False show False by simp
      qed
      from False nb "1.prems"
      have "str_nat (m div 10) = str_nat (b div 10)"
        and d: "char_of (48 + m mod 10) = (char_of (48 + b mod 10) :: char)"
        by (simp_all add: big)
      with "1.IH" [OF False] have q: "m div 10 = b div 10" by blast
      from d have "m mod 10 = b mod 10" by (intro digit) simp_all
      with q show ?thesis by (metis div_mult_mod_eq)
    qed
  qed
  have fin: "finite (?later n)"
  proof (rule finite_imageD)
    show "finite (activity_name skill ` ?later n)"
      by (rule finite_subset [of _ "set activities"]) auto
    show "inj_on (activity_name skill) (?later n)"
      by (rule inj_onI) (simp add: activity_name_def decimal)
  qed
  have "?later (n + 1) \<subset> ?later n" using present by auto
  then have "card (?later (n + 1)) < card (?later n)"
    using fin by (rule psubset_card_mono [rotated])
  then show "((skill, activities, n + 1), (skill, activities, n))
               \<in> measure (\<lambda>(skill, activities, n).
                   card {k. n < k \<and> activity_name skill k \<in> set activities})"
    by simp
qed

declare probe.simps [simp del]

text \<open>
  The method itself. Without results read, \<open>n_sessions\<close> is never assigned and the
  \<open>max\<close> after the \<open>if\<close> reads an unbound local; with no skill, \<open>max\<close> of an empty
  sequence is a ValueError; with \<open>self.full_results\<close> still \<open>None\<close>, subscripting it
  is a TypeError.
\<close>

definition infer_n_sessions_from_full_results ::
  "bool \<Rightarrow> ('id, 'more) result_row_scheme list option \<Rightarrow> string list \<Rightarrow> error + nat" where
  "infer_n_sessions_from_full_results results_read full_results skills =
     (if \<not> results_read then Inl UnboundLocalError
      else case skills of
        [] \<Rightarrow> Inl ValueError
      | skill # rest \<Rightarrow>
          (case full_results of
             None \<Rightarrow> Inl TypeError
           | Some rows \<Rightarrow>
               let activities = map Activity_Title rows in
               Inr (fold max (map (\<lambda>sk. probe sk activities 0) rest)
                             (probe skill activities 0))))"

section \<open>The outcome aggregator\<close>

text \<open>
  A participant. The three tables share the index (sessions) and the columns (skills);
  a cell that holds NaN or NaT is \<open>None\<close>.
\<close>

record 'id participant =
  ID :: 'id
  sessions_index :: "nat list"
  skill_columns :: "string list"
  answered :: "nat \<times> string \<rightharpoonup> bool"
  answer_date :: "nat \<times> string \<rightharpoonup> datetime"
  correct_first_try :: "nat \<times> string \<rightharpoonup> bool"
  first_answer_date :: "datetime option"
  last_answer_date :: "datetime option"
  accumulated_by_date :: "(datetime \<times> nat) list"

definition new_participant :: "'id \<Rightarrow> 'id participant" where
  "new_participant k =
     \<lparr>ID = k, sessions_index = [], skill_columns = [], answered = Map.empty,
      answer_date = Map.empty, correct_first_try = Map.empty,
      first_answer_date = None, last_answer_date = None, accumulated_by_date = []\<rparr>"

text \<open>The populated cells of a participant: those with an answer date.\<close>

definition populated_cells :: "'id participant \<Rightarrow> (nat \<times> string) list" where
  "populated_cells p =
     filter (\<lambda>cell. answer_date p cell \<noteq> None)
            (List.product (sessions_index p) (skill_columns p))"

subsection \<open>\<open>_cumulative_answers_by_date\<close>\<close>

text \<open>\<open>self.answer_date.values.flatten()\<close>, row by row, without the null entries.\<close>

definition answer_dates_given :: "'id participant \<Rightarrow> datetime list" where
  "answer_dates_given p =
     concat (map (\<lambda>session.
        concat (map (\<lambda>skill. case answer_date p (session, skill) of
                                 None \<Rightarrow> [] | Some date \<Rightarrow> [date])
                    (skill_columns p)))
        (sessions_index p))"

text \<open>The first loop: count the cells per date, in a dict.\<close>

fun count_dates :: "datetime list \<Rightarrow> (datetime \<times> nat) list \<Rightarrow> (datetime \<times> nat) list" where
  "count_dates [] dates_when_something_happened = dates_when_something_happened"
| "count_dates (date # rest) dates_when_something_happened =
     count_dates rest
       (case map_of dates_when_something_happened date of
          None \<Rightarrow> AList.update date 1 dates_when_something_happened
        | Some c \<Rightarrow> AList.update date (c + 1) dates_when_something_happened)"

text \<open>
  The second loop, over the sorted keys. The keys of a dict are distinct, so walking
  the sorted keys and looking each one up is walking the items in the order of their
  keys.
\<close>

fun accumulate :: "(datetime \<times> nat) list \<Rightarrow> nat \<Rightarrow> (datetime \<times> nat) list" where
  "accumulate [] accumulated = []"
| "accumulate ((date, c) # rest) accumulated =
     (date, accumulated + c) # accumulate rest (accumulated + c)"

definition cumulative_series :: "datetime list \<Rightarrow> (datetime \<times> nat) list" where
  "cumulative_series dates = accumulate (sort_key fst (count_dates dates [])) 0"

text \<open>\<open>participant._cumulative_answers_by_date\<close>\<close>

definition participant_cumulative_answers_by_date :: "'id participant \<Rightarrow> 'id participant" where
  "participant_cumulative_answers_by_date p =
     p\<lparr>accumulated_by_date := cumulative_series (answer_dates_given p)\<rparr>"

text \<open>\<open>learning_module._cumulative_answers_by_date\<close>\<close>

definition cumulative_answers_by_date :: "'id participant list \<Rightarrow> (datetime \<times> nat) list" where
  "cumulative_answers_by_date participants =
     cumulative_series (concat (map answer_dates_given participants))"

subsection \<open>\<open>learning_module._read_participant_results\<close>\<close>

text \<open>\<open>datetime.datetime(1900, 1, 1, tzinfo = pytz.UTC)\<close> and \<open>datetime.datetime(2200, 1, 1, ...)\<close>\<close>

definition date_1900 :: datetime where
  "date_1900 = - 2208988800"

definition date_2200 :: datetime where
  "date_2200 = 7258118400"

text \<open>Comparing a date with \<open>None\<close> is a TypeError.\<close>

definition date_less :: "datetime option \<Rightarrow> datetime option \<Rightarrow> error + bool" where
  "date_less a b =
     (case a of None \<Rightarrow> Inl TypeError | Some x \<Rightarrow>
      case b of None \<Rightarrow> Inl TypeError | Some y \<Rightarrow> Inr (x < y))"

text \<open>
  The body of the two nested loops for one skill and one session. The \<open>try\<close> block
  fails with IndexError exactly when no row of the participant has this activity title
  and attempt number 1.
\<close>

definition read_cell ::
  "'id result_row list \<Rightarrow> string \<Rightarrow> nat \<Rightarrow> 'id participant \<times> nat
   \<Rightarrow> error + 'id participant \<times> nat" where
  "read_cell correct_participant skill session st =
     (let p = fst st; n_answers = snd st;
          correct_skill =
            filter (\<lambda>r. Activity_Title r = activity_name skill session) correct_participant
      in case filter (\<lambda>r. Attempt_Number r = 1) correct_skill of
           [] \<Rightarrow>
             Inr (p\<lparr>answered := (answered p)((session, skill) \<mapsto> False),
                    correct_first_try := (correct_first_try p)((session, skill) \<mapsto> False),
                    answer_date := (answer_date p)((session, skill) := None)\<rparr>,
                  n_answers)
         | r # _ \<Rightarrow>
             let first_try_date = Date_Created r in
             case date_less (Some first_try_date) (first_answer_date p) of
               Inl e \<Rightarrow> Inl e
             | Inr earlier \<Rightarrow>
                 let p1 = (if earlier then p\<lparr>first_answer_date := Some first_try_date\<rparr> else p) in
                 case date_less (last_answer_date p1) (Some first_try_date) of
                   Inl e \<Rightarrow> Inl e
                 | Inr later \<Rightarrow>
                     let p2 = (if later then p1\<lparr>last_answer_date := Some first_try_date\<rparr>
                               else p1)
                     in Inr (p2\<lparr>answered := (answered p2)((session, skill) \<mapsto> True),
                               correct_first_try :=
                                 (correct_first_try p2)((session, skill) \<mapsto> Correct r),
                               answer_date :=
                                 (answer_date p2)((session, skill) \<mapsto> first_try_date)\<rparr>,
                             n_answers + 1))"

text \<open>\<open>for session in range(1, self.n_sessions + 1)\<close>\<close>

fun read_sessions ::
  "'id result_row list \<Rightarrow> string \<Rightarrow> nat list \<Rightarrow> 'id participant \<times> nat
   \<Rightarrow> error + 'id participant \<times> nat" where
  "read_sessions rows skill [] st = Inr st"
| "read_sessions rows skill (session # rest) st =
     (case read_cell rows skill session st of
        Inl e \<Rightarrow> Inl e
      | Inr st' \<Rightarrow> read_sessions rows skill rest st')"

text \<open>\<open>for skill in self.skills\<close>\<close>

fun read_skills ::
  "'id result_row list \<Rightarrow> string list \<Rightarrow> nat list \<Rightarrow> 'id participant \<times> nat
   \<Rightarrow> error + 'id participant \<times> nat" where
  "read_skills rows [] sessions st = Inr st"
| "read_skills rows (skill # rest) sessions st =
     (case read_sessions rows skill sessions st of
        Inl e \<Rightarrow> Inl e
      | Inr st' \<Rightarrow> read_skills rows rest sessions st')"

text \<open>
  The method, for a module with the given skills, session count, \<open>n_sessions_input\<close>,
  \<open>results_read\<close> and \<open>full_results\<close>. It returns the participant, the session count
  of the module afterwards and the participant's row of flags
  (started, answered once, finished). The participant's ID is a value other than
  \<open>None\<close>, so that the comparison of the Student ID column with it is equality.
\<close>

definition read_participant_results ::
  "string list \<Rightarrow> number \<Rightarrow> bool \<Rightarrow> bool \<Rightarrow> 'id result_row list option \<Rightarrow> 'id participant
   \<Rightarrow> error + 'id participant \<times> number \<times> (bool \<times> bool \<times> bool)" where
  "read_participant_results skills n_sessions n_sessions_input results_read full_results
     participant =
     (case (if \<not> n_sessions_input
            then (case infer_n_sessions_from_full_results results_read full_results skills of
                    Inl e \<Rightarrow> Inl e | Inr k \<Rightarrow> Inr (Integer (int k)))
            else Inr n_sessions) of
        Inl e \<Rightarrow> Inl e
      | Inr NaN \<Rightarrow> Inl TypeError
      | Inr (Integer k) \<Rightarrow>
          let sessions = map nat [1..k];
              p0 = participant\<lparr>sessions_index := sessions, skill_columns := skills,
                     answered := Map.empty, answer_date := Map.empty,
                     correct_first_try := Map.empty\<rparr>
          in case full_results of
               None \<Rightarrow> Inl TypeError
             | Some rows \<Rightarrow>
                 let correct_participant =
                       filter (\<lambda>r. Student_ID r = ID participant) rows;
                     p1 = p0\<lparr>first_answer_date := Some date_1900,
                            last_answer_date := Some date_2200\<rparr>
                 in case read_skills correct_participant skills sessions (p1, 0) of
                      Inl e \<Rightarrow> Inl e
                    | Inr (p2, n_answers) \<Rightarrow>
                        Inr (participant_cumulative_answers_by_date p2, Integer k,
                             (True, 0 < n_answers,
                              int n_answers = k * int (length skills))))"

section \<open>Concrete logs and tables\<close>

text \<open>
  A well-formed \<open>context_message\<close> element: the meta data with user and time, and the
  problem name under dataset, level, level, problem, name.
\<close>

definition context_element :: "string \<Rightarrow> string \<Rightarrow> string \<Rightarrow> xml" where
  "context_element user time_str label =
     Element ''context_message'' None
       [Element ''meta'' None
          [Element ''user_id'' (Some user) [], Element ''time'' (Some time_str) []],
        Element ''dataset'' None
          [Element ''level'' None
             [Element ''level'' None
                [Element ''problem'' None [Element ''name'' (Some label) []]]]]]"

text \<open>A \<open>context_message\<close> whose dataset has one level only, and no problem below it.\<close>

definition context_without_problem :: "string \<Rightarrow> string \<Rightarrow> xml" where
  "context_without_problem user time_str =
     Element ''context_message'' None
       [Element ''meta'' None
          [Element ''user_id'' (Some user) [], Element ''time'' (Some time_str) []],
        Element ''dataset'' None [Element ''level'' None []]]"

definition tutor_element :: "string \<Rightarrow> xml" where
  "tutor_element outcome =
     Element ''tutor_message'' None [Element ''action_evaluation'' (Some outcome) []]"

text \<open>The two date strings of the examples, read as seconds since the epoch.\<close>

definition strptime_2024 :: "string \<Rightarrow> datetime option" where
  "strptime_2024 s =
     (if s = ''2024-01-01 10:00:00'' then Some 1704103200
      else if s = ''2024-01-01 10:05:00'' then Some 1704103500
      else None)"

definition table_row :: "'id \<Rightarrow> datetime \<Rightarrow> string \<Rightarrow> int \<Rightarrow> bool \<Rightarrow> 'id result_row" where
  "table_row k d a n c =
     \<lparr>Student_ID = k, Date_Created = d, Activity_Title = a, Correct = c,
      Attempt_Number = n\<rparr>"

definition xml_table_row :: "'id \<Rightarrow> datetime \<Rightarrow> string \<Rightarrow> bool \<Rightarrow> 'id xml_row" where
  "xml_table_row k d a c =
     \<lparr>Student_ID = k, Date_Created = d, Activity_Title = a, Correct = c\<rparr>"

text \<open>Two participants with their answer dates filled in.\<close>

definition sample_participant_1 :: "string participant" where
  "sample_participant_1 =
     (new_participant ''u1'')
       \<lparr>sessions_index := [1], skill_columns := [''Backup'', ''Password''],
        answer_date := [(1, ''Backup'') \<mapsto> 1704103500, (1, ''Password'') \<mapsto> 1704103200]\<rparr>"

definition sample_participant_2 :: "string participant" where
  "sample_participant_2 =
     (new_participant ''u2'')
       \<lparr>sessions_index := [1], skill_columns := [''Backup'', ''Password''],
        answer_date := [(1, ''Backup'') \<mapsto> 1704103500]\<rparr>"

section \<open>Properties of the parser\<close>

subsection \<open>Matching a problem name against the skills\<close>

lemma activity_name_not_empty: "activity_name skill k \<noteq> []"
  by (simp add: activity_name_def)

lemma match_sessions_result:
  "(match_sessions str_lower p skill sessions m = m \<and>
      (\<forall>s \<in> set sessions. p \<noteq> str_lower (activity_name skill (s + 1))))
   \<or> (\<exists>s \<in> set sessions. match_sessions str_lower p skill sessions m = activity_name skill (s + 1)
         \<and> p = str_lower (activity_name skill (s + 1)))"
proof (induction sessions arbitrary: m)
  case Nil
  show ?case by simp
next
  case (Cons s sessions)
  let ?m' = "if p = str_lower (activity_name skill (s + 1)) then activity_name skill (s + 1) else m"
  from Cons.IH [of ?m'] show ?case
    by (auto simp: Let_def)
qed

lemma match_skills_result:
  "\<exists>r. match_skills str_lower (Integer n) p skills m = Inr r \<and>
     ((r = m \<and> (\<forall>skill \<in> set skills. \<forall>s \<in> set [0..<nat n].
                   p \<noteq> str_lower (activity_name skill (s + 1))))
      \<or> (\<exists>skill \<in> set skills. \<exists>s \<in> set [0..<nat n].
            r = activity_name skill (s + 1) \<and> p = str_lower (activity_name skill (s + 1))))"
proof (induction skills arbitrary: m)
  case Nil
  show ?case by simp
next
  case (Cons skill skills)
  let ?m' = "match_sessions str_lower p skill [0..<nat n] m"
  from Cons.IH [of ?m'] obtain r where
    r: "match_skills str_lower (Integer n) p skills ?m' = Inr r" and
    d: "(r = ?m' \<and> (\<forall>skill \<in> set skills. \<forall>s \<in> set [0..<nat n].
                   p \<noteq> str_lower (activity_name skill (s + 1))))
      \<or> (\<exists>skill \<in> set skills. \<exists>s \<in> set [0..<nat n].
            r = activity_name skill (s + 1) \<and> p = str_lower (activity_name skill (s + 1)))"
    by blast
  have e: "match_skills str_lower (Integer n) p (skill # skills) m = Inr r"
    using r by (simp add: range_py_def)
  from d match_sessions_result [of str_lower p skill "[0..<nat n]" m] e show ?case
    by (intro exI [of _ r]) (simp, blast)
qed

lemma match_skills_Integer: "\<exists>r. match_skills str_lower (Integer n) p skills m = Inr r"
  by (induction skills arbitrary: m) (simp_all add: range_py_def)

subsection \<open>Messages after a context without a problem name\<close>

lemma waiting_skips:
  "wait_for_next_context_message s \<Longrightarrow> \<forall>m \<in> set msgs. tag m \<noteq> ''context_message'' \<Longrightarrow>
   parse_children strptime (msgs @ rest) s = parse_children strptime rest s"
  by (induction msgs) (simp_all add: parse_child_def)

lemma skipped_after_context:
  assumes "tag c = ''context_message''"
    and "item (findall ''meta'' c) 0 = Inr meta"
    and "item (findall ''user_id'' meta) 0 = Inr user_id"
    and "item (findall ''time'' meta) 0 = Inr time_el"
    and "elem_text time_el = Some time_str"
    and "strptime time_str = Some t"
    and "problem_name_element c = Inl e"
    and "\<forall>m \<in> set msgs. tag m \<noteq> ''context_message''"
  shows "parse_children strptime (c # msgs @ rest) s =
           parse_children strptime rest
             (s\<lparr>anon_id := Some (elem_text user_id), time := Some t,
                wait_for_next_context_message := True\<rparr>)"
proof -
  let ?s1 = "s\<lparr>anon_id := Some (elem_text user_id), time := Some t,
                wait_for_next_context_message := True\<rparr>"
  have "parse_child strptime c s = Inr ?s1"
    using assms(1-7) by (simp add: parse_child_def context_message_def)
  then have "parse_children strptime (c # msgs @ rest) s
               = parse_children strptime (msgs @ rest) ?s1"
    by simp
  also have "\<dots> = parse_children strptime rest ?s1"
    using assms(8) by (intro waiting_skips) simp_all
  finally show ?thesis .
qed

subsection \<open>What the first loop registers, and where the second loop fails\<close>

lemma update_entries: "set (AList.update k v al) \<subseteq> insert (k, v) (set al)"
  by (induction al) auto

lemma registered_update:
  "registered ans \<Longrightarrow> v \<noteq> [] \<Longrightarrow> registered (AList.update a v ans)"
  using update_entries [of a v ans] by (auto simp: registered_def list_all_iff)

lemma register_context_update:
  "\<exists>v. v \<noteq> [] \<and> register_context a p t ans = AList.update a v ans"
proof (cases "map_of ans a")
  case None
  then have "register_context a p t ans = AList.update a [(p, [(t, [])])] ans"
    by (simp add: register_context_def Let_def update_conv')
  then show ?thesis by blast
next
  case (Some d)
  then have "register_context a p t ans
     = AList.update a (AList.update p (AList.update t []
         (case map_of (if map_of d p = None then AList.update p [] d else d) p of
            None \<Rightarrow> [] | Some x \<Rightarrow> x))
         (if map_of d p = None then AList.update p [] d else d)) ans"
    by (simp add: register_context_def Let_def)
  moreover have "AList.update p (AList.update t []
         (case map_of (if map_of d p = None then AList.update p [] d else d) p of
            None \<Rightarrow> [] | Some x \<Rightarrow> x))
         (if map_of d p = None then AList.update p [] d else d) \<noteq> []"
    by simp
  ultimately show ?thesis by blast
qed

lemma registered_register_context:
  "registered ans \<Longrightarrow> registered (register_context a p t ans)"
proof -
  assume r: "registered ans"
  from register_context_update [of a p t ans] obtain v where
    "v \<noteq> []" "register_context a p t ans = AList.update a v ans" by blast
  with r show ?thesis by (simp add: registered_update)
qed

lemma context_message_registered:
  "registered (answers s) \<Longrightarrow> context_message strptime c s = Inr s' \<Longrightarrow> registered (answers s')"
  by (auto simp: context_message_def Let_def registered_register_context
        split: sum.splits option.splits)

lemma answers_read_outcome: "answers (read_outcome x s) = answers s"
  by (simp add: read_outcome_def)

lemma append_outcome_registered:
  "registered (answers s) \<Longrightarrow> append_outcome s = Inr s' \<Longrightarrow> registered (answers s')"
  by (auto simp: append_outcome_def registered_update split: option.splits)

lemma tutor_message_registered:
  "registered (answers s) \<Longrightarrow> tutor_message c s = Inr s' \<Longrightarrow> registered (answers s')"
  by (auto simp: tutor_message_def answers_read_outcome split: sum.splits
        dest!: append_outcome_registered [rotated])

lemma parse_child_registered:
  "registered (answers s) \<Longrightarrow> parse_child strptime c s = Inr s' \<Longrightarrow> registered (answers s')"
  unfolding parse_child_def
  by (auto split: if_splits
        elim: context_message_registered tutor_message_registered)

lemma parse_children_registered:
  "registered (answers s) \<Longrightarrow> parse_children strptime cs s = Inr s' \<Longrightarrow> registered (answers s')"
proof (induction cs arbitrary: s)
  case Nil
  then show ?case by simp
next
  case (Cons c cs)
  from Cons.prems(2) obtain s1 where
    s1: "parse_child strptime c s = Inr s1" "parse_children strptime cs s1 = Inr s'"
    by (auto split: sum.splits)
  from Cons.prems(1) s1(1) have "registered (answers s1)" by (rule parse_child_registered)
  then show ?case using s1(2) by (rule Cons.IH)
qed

lemma collect_answers_NaN:
  "skills \<noteq> [] \<Longrightarrow> ans \<noteq> [] \<Longrightarrow> registered ans \<Longrightarrow>
   collect_answers str_lower skills NaN ans cols = Inl TypeError"
proof -
  assume sk: "skills \<noteq> []" and ne: "ans \<noteq> []" and reg: "registered ans"
  from ne obtain a problem rest where ans: "ans = (a, problem) # rest"
    by (cases ans) auto
  with reg obtain p tms ps where problem: "problem = (p, tms) # ps"
    by (cases problem) (auto simp: registered_def)
  from sk obtain skill sks where skills: "skills = skill # sks" by (cases skills) auto
  show ?thesis by (simp add: ans problem skills range_py_def)
qed

lemma collect_problems_Integer:
  "\<exists>cols'. collect_problems str_lower skills (Integer k) a problem cols = Inr cols'"
proof (induction problem arbitrary: cols)
  case Nil
  show ?case by simp
next
  case (Cons e problem)
  obtain p tms where e: "e = (p, tms)" by (cases e)
  from match_skills_Integer obtain r where "match_skills str_lower (Integer k) p skills [] = Inr r"
    by blast
  with Cons.IH e show ?case by simp
qed

lemma collect_answers_Integer:
  "\<exists>cols'. collect_answers str_lower skills (Integer k) ans cols = Inr cols'"
proof (induction ans arbitrary: cols)
  case Nil
  show ?case by simp
next
  case (Cons e ans)
  obtain a problem where e: "e = (a, problem)" by (cases e)
  from collect_problems_Integer obtain c where
    "collect_problems str_lower skills (Integer k) a problem cols = Inr c" by blast
  with Cons.IH e show ?case by simp
qed

section \<open>Properties of the reconciler\<close>

lemma search_pseudonyms_find:
  "ID_times \<noteq> [] \<Longrightarrow>
   search_pseudonyms k ID_times pseudonyms raw_data mapping =
     Inr (case find (\<lambda>b. match_fraction ID_times (entries_times b raw_data) > 9 / 10)
                    pseudonyms of
            None \<Rightarrow> mapping
          | Some b \<Rightarrow> AList.update b k mapping)"
  by (induction pseudonyms)
     (simp_all add: match_fraction_def times_matched_def match_found_def list_ex_iff Let_def)

lemma update_distinct_values:
  "distinct (map snd al) \<Longrightarrow> v \<notin> snd ` set al \<Longrightarrow> distinct (map snd (AList.update k v al))"
proof (induction al)
  case Nil
  show ?case by simp
next
  case (Cons e al)
  obtain k' v' where e: "e = (k', v')" by (cases e)
  show ?case
  proof (cases "k' = k")
    case True
    with e Cons.prems show ?thesis by (simp add: image_iff)
  next
    case False
    from Cons.prems e have "v' \<noteq> v" "v' \<notin> snd ` set al" by (auto simp: image_iff)
    with update_entries [of k v al] have "v' \<notin> snd ` set (AList.update k v al)"
      by (auto simp: image_iff)
    moreover from Cons e have "distinct (map snd (AList.update k v al))" by simp
    ultimately show ?thesis using e False by simp
  qed
qed

lemma search_IDs_invariant:
  assumes "distinct IDs_order"
    and "\<forall>k \<in> set IDs_order. ID_entries_times k xml_data \<noteq> []"
    and "distinct (map fst mapping)" and "distinct (map snd mapping)"
    and "snd ` set mapping \<inter> set IDs_order = {}"
  shows "\<exists>m. search_IDs IDs_order pseudonyms xml_data raw_data mapping = Inr m \<and>
           distinct (map fst m) \<and> distinct (map snd m) \<and>
           (\<forall>e \<in> set m. e \<in> set mapping \<or>
              (snd e \<in> set IDs_order \<and> fst e \<in> set pseudonyms \<and>
               match_fraction (ID_entries_times (snd e) xml_data) (entries_times (fst e) raw_data)
                 > 9 / 10))"
  using assms
proof (induction IDs_order arbitrary: mapping)
  case Nil
  then show ?case by simp
next
  case (Cons k rest)
  let ?ok = "\<lambda>b. match_fraction (ID_entries_times k xml_data) (entries_times b raw_data) > 9 / 10"
  let ?m1 = "case find ?ok pseudonyms of None \<Rightarrow> mapping | Some b \<Rightarrow> AList.update b k mapping"
  from Cons.prems have ne: "ID_entries_times k xml_data \<noteq> []" by simp
  then have s: "search_pseudonyms k (ID_entries_times k xml_data) pseudonyms raw_data mapping
                  = Inr ?m1"
    by (rule search_pseudonyms_find)
  from Cons.prems have knew: "k \<notin> snd ` set mapping" "k \<notin> set rest" by auto
  have sub: "\<forall>e \<in> set ?m1. e \<in> set mapping \<or> (snd e = k \<and> fst e \<in> set pseudonyms \<and> ?ok (fst e))"
  proof (cases "find ?ok pseudonyms")
    case None
    then show ?thesis by simp
  next
    case (Some b)
    then have "b \<in> set pseudonyms" "?ok b" by (auto simp: find_Some_iff)
    with Some update_entries [of b k mapping] show ?thesis by auto
  qed
  have d1: "distinct (map fst ?m1)"
    using Cons.prems(3) by (simp add: distinct_update split: option.split)
  have d2: "distinct (map snd ?m1)"
    using Cons.prems(4) knew(1) by (simp add: update_distinct_values split: option.split)
  have d3: "snd ` set ?m1 \<inter> set rest = {}"
  proof -
    have "snd ` set ?m1 \<subseteq> insert k (snd ` set mapping)" using sub by auto
    with Cons.prems(5) knew(2) show ?thesis by auto
  qed
  from Cons.prems have "distinct rest" "\<forall>k \<in> set rest. ID_entries_times k xml_data \<noteq> []"
    by simp_all
  from Cons.IH [OF this d1 d2 d3] obtain m where
    m: "search_IDs rest pseudonyms xml_data raw_data ?m1 = Inr m"
       "distinct (map fst m)" "distinct (map snd m)"
       "\<forall>e \<in> set m. e \<in> set ?m1 \<or>
          (snd e \<in> set rest \<and> fst e \<in> set pseudonyms \<and>
           match_fraction (ID_entries_times (snd e) xml_data) (entries_times (fst e) raw_data)
             > 9 / 10)"
    by blast
  have "search_IDs (k # rest) pseudonyms xml_data raw_data mapping = Inr m"
    using s m(1) by simp
  moreover have "\<forall>e \<in> set m. e \<in> set mapping \<or>
       (snd e \<in> set (k # rest) \<and> fst e \<in> set pseudonyms \<and>
        match_fraction (ID_entries_times (snd e) xml_data) (entries_times (fst e) raw_data)
          > 9 / 10)"
    using m(4) sub by fastforce
  ultimately show ?case using m(2,3) by blast
qed

lemma search_pseudonyms_no_times:
  "pseudonyms \<noteq> [] \<Longrightarrow> search_pseudonyms k [] pseudonyms raw_data mapping = Inl ZeroDivisionError"
  by (cases pseudonyms) simp_all

lemma search_IDs_no_pseudonyms: "search_IDs IDs_order [] xml_data raw_data mapping = Inr mapping"
  by (induction IDs_order arbitrary: mapping) simp_all

lemma search_IDs_None:
  assumes "None \<in> set IDs_order" and "pseudonyms \<noteq> []"
    and "\<forall>k \<in> set IDs_order. k \<noteq> None \<longrightarrow> ID_entries_times k xml_data \<noteq> []"
  shows "search_IDs IDs_order pseudonyms xml_data raw_data mapping = Inl ZeroDivisionError"
  using assms
proof (induction IDs_order arbitrary: mapping)
  case Nil
  then show ?case by simp
next
  case (Cons k rest)
  show ?case
  proof (cases k)
    case None
    have "ID_entries_times None xml_data = []" by (simp add: ID_entries_times_def)
    with None Cons.prems(2) show ?thesis by (simp add: search_pseudonyms_no_times)
  next
    case (Some x)
    with Cons.prems have ne: "ID_entries_times k xml_data \<noteq> []" and rest: "None \<in> set rest"
      by auto
    from Cons.prems have "\<forall>k \<in> set rest. k \<noteq> None \<longrightarrow> ID_entries_times k xml_data \<noteq> []"
      by simp
    from Cons.IH [OF rest Cons.prems(2) this]
    have "\<And>m. search_IDs rest pseudonyms xml_data raw_data m = Inl ZeroDivisionError" .
    then show ?thesis by (simp add: search_pseudonyms_find [OF ne])
  qed
qed

section \<open>Properties of the session resolver\<close>

lemma probe_result:
  "n \<le> probe skill activities n \<and>
   (\<forall>k. n < k \<and> k \<le> probe skill activities n \<longrightarrow> activity_name skill k \<in> set activities) \<and>
   activity_name skill (probe skill activities n + 1) \<notin> set activities"
proof (induction skill activities n rule: probe.induct)
  case (1 skill activities n)
  show ?case
  proof (cases "activity_name skill (n + 1) \<in> set activities")
    case True
    then have e: "probe skill activities n = probe skill activities (n + 1)"
      by (subst probe.simps) simp
    from "1.IH" [OF True] True show ?thesis
      unfolding e by (metis Suc_eq_plus1 Suc_leD Suc_lessI)
  next
    case False
    then have "probe skill activities n = n" by (subst probe.simps) simp
    with False show ?thesis by auto
  qed
qed

lemma fold_max_Max: "fold max xs (x::nat) = Max (set (x # xs))"
  by (rule Max.set_eq_fold [symmetric])

section \<open>Properties of the cumulative series\<close>

lemma sum_update_absent:
  "map_of d k = None \<Longrightarrow> sum_list (map snd (AList.update k v d)) = sum_list (map snd d) + (v::nat)"
  by (induction d) (auto split: if_splits)

lemma sum_update_present:
  "map_of d k = Some c \<Longrightarrow> sum_list (map snd (AList.update k (Suc c) d)) = Suc (sum_list (map snd d))"
  by (induction d) (auto split: if_splits)

lemma count_dates_sum:
  "sum_list (map snd (count_dates dates d)) = sum_list (map snd d) + length dates"
  by (induction dates arbitrary: d)
     (auto simp: sum_update_absent sum_update_present split: option.splits)

lemma count_dates_distinct:
  "distinct (map fst d) \<Longrightarrow> distinct (map fst (count_dates dates d))"
  by (induction dates arbitrary: d) (auto simp: distinct_update split: option.splits)

lemma count_dates_empty: "count_dates dates d = [] \<longleftrightarrow> dates = [] \<and> d = []"
  by (induction dates arbitrary: d) (auto split: option.splits)

lemma accumulate_keys: "map fst (accumulate items a) = map fst items"
  by (induction items a rule: accumulate.induct) auto

lemma accumulate_lower: "(d, c) \<in> set (accumulate items a) \<Longrightarrow> a \<le> c"
  by (induction items a rule: accumulate.induct) fastforce+

lemma accumulate_sorted: "sorted (map snd (accumulate items a))"
  by (induction items a rule: accumulate.induct) (auto dest: accumulate_lower)

lemma accumulate_last:
  "items \<noteq> [] \<Longrightarrow> snd (last (accumulate items a)) = a + sum_list (map snd items)"
proof (induction items a rule: accumulate.induct)
  case (1 a)
  then show ?case by simp
next
  case (2 date c rest a)
  then show ?case by (cases rest) auto
qed

lemma accumulate_empty: "accumulate items a = [] \<longleftrightarrow> items = []"
  by (cases items) auto

lemma sort_key_empty: "sort_key f xs = [] \<longleftrightarrow> xs = []"
  by (metis length_0_conv length_sort)

lemma sum_sort_key: "sum_list (map snd (sort_key fst (d :: (datetime \<times> nat) list))) = sum_list (map snd d)"
proof -
  have "mset (map snd (sort_key fst d)) = mset (map snd d)" by simp
  then show ?thesis by (metis sum_mset_sum_list)
qed

lemma distinct_keys_sort: "distinct (map fst (sort_key fst d)) = distinct (map fst d)"
proof -
  have "mset (map fst (sort_key fst d)) = mset (map fst d)" by simp
  then show ?thesis by (rule mset_eq_imp_distinct_iff)
qed

lemma cumulative_series_props:
  "sorted_wrt (<) (map fst (cumulative_series dates)) \<and>
   sorted (map snd (cumulative_series dates)) \<and>
   (cumulative_series dates = [] \<longleftrightarrow> dates = []) \<and>
   (dates \<noteq> [] \<longrightarrow> snd (last (cumulative_series dates)) = length dates)"
proof -
  let ?d = "count_dates dates []"
  have "distinct (map fst (sort_key fst ?d))"
    by (simp add: distinct_keys_sort count_dates_distinct)
  moreover have "sorted (map fst (sort_key fst ?d))" by simp
  ultimately have a: "sorted_wrt (<) (map fst (cumulative_series dates))"
    by (simp add: cumulative_series_def accumulate_keys strict_sorted_iff)
  have b: "sorted (map snd (cumulative_series dates))"
    by (simp add: cumulative_series_def accumulate_sorted)
  have c: "cumulative_series dates = [] \<longleftrightarrow> dates = []"
    by (simp add: cumulative_series_def accumulate_empty sort_key_empty count_dates_empty)
  have d: "dates \<noteq> [] \<longrightarrow> snd (last (cumulative_series dates)) = length dates"
  proof
    assume "dates \<noteq> []"
    then have "sort_key fst ?d \<noteq> []" by (simp add: sort_key_empty count_dates_empty)
    then show "snd (last (cumulative_series dates)) = length dates"
      by (simp add: cumulative_series_def accumulate_last sum_sort_key count_dates_sum)
  qed
  from a b c d show ?thesis by blast
qed

lemma dates_of_cells:
  "length (concat (map (\<lambda>x. case g x of None \<Rightarrow> [] | Some d \<Rightarrow> [d]) xs))
     = length (filter (\<lambda>x. g x \<noteq> None) xs)"
  by (induction xs) (auto split: option.splits)

lemma answer_dates_given_product:
  "answer_dates_given p =
     concat (map (\<lambda>cell. case answer_date p cell of None \<Rightarrow> [] | Some date \<Rightarrow> [date])
                 (List.product (sessions_index p) (skill_columns p)))"
proof -
  have "concat (map (\<lambda>session.
           concat (map (\<lambda>skill. case f (session, skill) of None \<Rightarrow> [] | Some date \<Rightarrow> [date])
                       cols)) idx)
        = concat (map (\<lambda>cell. case f cell of None \<Rightarrow> [] | Some date \<Rightarrow> [date])
                      (List.product idx cols))"
    for f :: "nat \<times> string \<Rightarrow> datetime option" and cols idx
    by (induction idx) (simp_all add: comp_def)
  then show ?thesis by (simp add: answer_dates_given_def)
qed

lemma length_answer_dates_given:
  "length (answer_dates_given p) = length (populated_cells p)"
  by (simp add: answer_dates_given_product populated_cells_def dates_of_cells)

lemma length_group_dates:
  "length (concat (map answer_dates_given participants))
     = sum_list (map (\<lambda>p. length (populated_cells p)) participants)"
  by (induction participants) (simp_all add: length_answer_dates_given)

lemma group_dates_empty:
  "concat (map answer_dates_given participants) = []
     \<longleftrightarrow> list_all (\<lambda>p. populated_cells p = []) participants"
proof (induction participants)
  case Nil
  show ?case by simp
next
  case (Cons p ps)
  have "answer_dates_given p = [] \<longleftrightarrow> populated_cells p = []"
    using length_answer_dates_given [of p] by (metis length_0_conv)
  with Cons show ?case by simp
qed

section \<open>Results\<close>

subsection \<open>First and last answer date\<close>

text \<open>
  Claim C2 says that after \<open>_read_participant_results\<close> the participant's
  \<open>first_answer_date\<close> is the minimum and \<open>last_answer_date\<close> the maximum of the
  first-attempt dates. The code starts the minimum at 1900-01-01 and the maximum at
  2200-01-01, the two sentinels exchanged: for the participant u1 with one first attempt
  on 2024-01-01 at 10:00:00, the cell holds that date, and the two scalar dates are
  still 1900-01-01 and 2200-01-01.
\<close>

theorem C2_answer_dates_stay_at_sentinels:
  "(case read_participant_results [''Backup''] (Integer 1) True True
          (Some [table_row ''u1'' 1704103200 ''Backup_Q1'' 1 True])
          (new_participant ''u1'') of
      Inl e \<Rightarrow> False
    | Inr (p, n, started, answered_once, finished) \<Rightarrow>
        answer_date p (1, ''Backup'') = Some 1704103200 \<and>
        first_answer_date p = Some (- 2208988800) \<and>
        last_answer_date p = Some 7258118400)"
  by code_simp

subsection \<open>Attempt numbers in the parsed table\<close>

text \<open>
  Claim C5 says that every record parsed from the XML log carries an attempt number,
  the rank of its timestamp among those of the same subject and problem. The second
  loop of \<open>import_datashop\<close> creates the list \<open>attempt_number\<close> and never appends to it,
  and the data frame is built without it: for two attempts of u1 at the same problem,
  five minutes apart, the other four lists have two entries each and \<open>attempt_number\<close>
  is empty.
\<close>

theorem C5_attempt_number_never_filled:
  "datashop_columns lower_ascii [''Backup''] (Integer 1) strptime_2024
     [context_element ''u1'' ''2024-01-01 10:00:00'' ''Module backup_q1.'',
      tutor_element ''INCORRECT'',
      context_element ''u1'' ''2024-01-01 10:05:00'' ''Module backup_q1.'',
      tutor_element ''CORRECT'']
   = Inr (\<lparr>IDs = [Some ''u1'', Some ''u1''], answer_dates = [1704103200, 1704103500],
           correct = [False, True], activity_titles = [''Backup_Q1'', ''Backup_Q1''],
           attempt_number = []\<rparr>, [])"
  by code_simp

subsection \<open>Outcomes outside CORRECT and INCORRECT\<close>

text \<open>
  Claim C6 says that a tutor message whose outcome is neither CORRECT nor INCORRECT is
  reported and yields no attempt record. The code prints its message and then appends
  \<open>is_correct\<close> all the same: after a CORRECT message, the outcome HINT is recorded as
  a second correct attempt; as the first tutor message of the log, it ends the whole
  call with an unbound local variable.
\<close>

theorem C6_unknown_outcome_is_appended:
  "datashop_columns lower_ascii [''Backup''] (Integer 1) strptime_2024
     [context_element ''u1'' ''2024-01-01 10:00:00'' ''Module backup_q1.'',
      tutor_element ''CORRECT'', tutor_element ''HINT'']
   = Inr (\<lparr>IDs = [Some ''u1'', Some ''u1''], answer_dates = [1704103200, 1704103200],
           correct = [True, True], activity_titles = [''Backup_Q1'', ''Backup_Q1''],
           attempt_number = []\<rparr>,
          [''Cannot figure out if action was completed correctly or not''])
   \<and> datashop_columns lower_ascii [''Backup''] (Integer 1) strptime_2024
     [context_element ''u1'' ''2024-01-01 10:00:00'' ''Module backup_q1.'',
      tutor_element ''HINT''] = Inl UnboundLocalError"
  by code_simp

subsection \<open>The scenario of one correct answer\<close>

text \<open>
  The scenario of claim C1 as the claim states it, with the label \<open>Module Backup_Q1.\<close>:
  the extracted name \<open>Backup_Q1\<close> is compared with the lower-cased name
  \<open>backup_q1\<close>, the two differ, and the parsed table is empty.
\<close>

theorem C1_capitalised_label_is_dropped:
  "import_datashop lower_ascii [''Backup''] (Integer 1) strptime_2024
     [context_element ''u1'' ''2024-01-01 10:00:00'' ''Module Backup_Q1.'',
      tutor_element ''CORRECT''] = Inr []"
  by code_simp

lemma scenario_first_loop:
  "parse_children strptime_2024
     [context_element ''u1'' ''2024-01-01 10:00:00'' ''Module backup_q1.'',
      tutor_element ''CORRECT''] initial_locals
   = Inr \<lparr>answers = [(Some ''u1'', [(''backup_q1'', [(1704103200, [True])])])],
          wait_for_next_context_message = False, anon_id = Some (Some ''u1''),
          time = Some 1704103200, problem_name = Some ''backup_q1'',
          is_correct = Some True, printed = []\<rparr>"
  by code_simp

lemma scenario_activity_name: "activity_name ''Backup'' (Suc 0) = ''Backup_Q1''"
  by code_simp

lemma scenario_lower_case:
  assumes "str_lower ''Backup_Q1'' = ''backup_q1''"
  shows "import_datashop str_lower [''Backup''] (Integer 1) strptime_2024
     [context_element ''u1'' ''2024-01-01 10:00:00'' ''Module backup_q1.'',
      tutor_element ''CORRECT'']
   = Inr [xml_table_row (Some ''u1'') 1704103200 ''Backup_Q1'' True]"
proof -
  have "match_skills str_lower (Integer 1) ''backup_q1'' [''Backup''] [] = Inr ''Backup_Q1''"
    using assms by (simp add: range_py_def scenario_activity_name)
  then have c: "collect_answers str_lower [''Backup''] (Integer 1)
          [(Some ''u1'', [(''backup_q1'', [(1704103200, [True])])])] empty_columns
        = Inr \<lparr>IDs = [Some ''u1''], answer_dates = [1704103200], correct = [True],
                activity_titles = [''Backup_Q1''], attempt_number = []\<rparr>"
    by (simp add: append_rows_def empty_columns_def)
  show ?thesis
    unfolding import_datashop_def datashop_columns_def scenario_first_loop
    by (simp add: c data_frame_def xml_table_row_def del: collect_answers.simps)
qed

lemma scenario_cell:
  "(case read_participant_results [''Backup''] (Integer 1) True True
          (Some [table_row (Some ''u1'') 1704103200 ''Backup_Q1'' 1 True])
          (new_participant (Some ''u1'')) of
      Inl e \<Rightarrow> False
    | Inr (participant, n', started, answered_once, finished) \<Rightarrow>
        answered participant (1, ''Backup'') = Some True \<and>
        correct_first_try participant (1, ''Backup'') = Some True)"
  by code_simp

lemma match_skills_characterised:
  "\<exists>matched_skill. match_skills str_lower (Integer n) name skills [] = Inr matched_skill \<and>
      (matched_skill \<noteq> [] \<longleftrightarrow>
         (\<exists>skill session. skill \<in> set skills \<and> 1 \<le> session \<and> session \<le> nat n \<and>
            name = str_lower (activity_name skill session))) \<and>
      (matched_skill \<noteq> [] \<longrightarrow>
         name = str_lower matched_skill \<and>
         (\<exists>skill session. skill \<in> set skills \<and> 1 \<le> session \<and> session \<le> nat n \<and>
            matched_skill = activity_name skill session))"
proof -
  from match_skills_result [of str_lower n name skills "[]"] obtain r where
    r: "match_skills str_lower (Integer n) name skills [] = Inr r" and
    d: "(r = [] \<and> (\<forall>skill \<in> set skills. \<forall>s \<in> set [0..<nat n].
                   name \<noteq> str_lower (activity_name skill (s + 1))))
      \<or> (\<exists>skill \<in> set skills. \<exists>s \<in> set [0..<nat n].
            r = activity_name skill (s + 1) \<and> name = str_lower (activity_name skill (s + 1)))"
    by blast
  from d show ?thesis
  proof
    assume a: "r = [] \<and> (\<forall>skill \<in> set skills. \<forall>s \<in> set [0..<nat n].
                   name \<noteq> str_lower (activity_name skill (s + 1)))"
    have "\<not> (\<exists>skill session. skill \<in> set skills \<and> 1 \<le> session \<and> session \<le> nat n \<and>
            name = str_lower (activity_name skill session))"
    proof
      assume "\<exists>skill session. skill \<in> set skills \<and> 1 \<le> session \<and> session \<le> nat n \<and>
            name = str_lower (activity_name skill session)"
      then obtain skill session where h: "skill \<in> set skills" "1 \<le> session" "session \<le> nat n"
        "name = str_lower (activity_name skill session)" by blast
      then have "session - 1 \<in> set [0..<nat n]" "session - 1 + 1 = session" by auto
      with a h(1,4) show False by metis
    qed
    with a r show ?thesis by blast
  next
    assume "\<exists>skill \<in> set skills. \<exists>s \<in> set [0..<nat n].
            r = activity_name skill (s + 1) \<and> name = str_lower (activity_name skill (s + 1))"
    then obtain skill s where h: "skill \<in> set skills" "s < nat n"
      "r = activity_name skill (s + 1)" "name = str_lower (activity_name skill (s + 1))" by auto
    then have b: "1 \<le> s + 1" "s + 1 \<le> nat n" by simp_all
    have "r \<noteq> []" using h(3) by (simp add: activity_name_not_empty)
    moreover have "name = str_lower r" using h(3,4) by simp
    ultimately show ?thesis using r h(1,3,4) b by blast
  qed
qed

text \<open>
  Claim C1, amended. \<open>str_lower\<close> is Python's \<open>str.lower\<close>, of which the first part
  uses only that it takes \<open>Backup_Q1\<close> to \<open>backup_q1\<close>, and the last part nothing.
  For the log with skill Backup, one session, subject u1 and a context at
  2024-01-01 10:00:00 whose label is \<open>Module backup_q1.\<close>, in lower case, followed by
  one tutor message with outcome CORRECT, \<open>import_datashop\<close> produces exactly one record
  (u1, 2024-01-01T10:00:00Z, Backup_Q1, true). The aggregator, run on a unified table
  that holds this record with attempt number 1, sets the cell (session 1, skill Backup)
  to answered and correct. In general the extracted name is compared, as it is, with
  the lower-cased \<open><skill>_Q<session>\<close> of every skill and every session from 1 to the
  session count: a name is matched exactly when it equals one of these lower-cased
  names, and the activity title recorded is then such a name in its original case.
\<close>

theorem C1_lower_case_label_gives_one_record:
  "(str_lower ''Backup_Q1'' = ''backup_q1'' \<longrightarrow>
      import_datashop str_lower [''Backup''] (Integer 1) strptime_2024
        [context_element ''u1'' ''2024-01-01 10:00:00'' ''Module backup_q1.'',
         tutor_element ''CORRECT'']
      = Inr [xml_table_row (Some ''u1'') 1704103200 ''Backup_Q1'' True])
   \<and> (case read_participant_results [''Backup''] (Integer 1) True True
          (Some [table_row (Some ''u1'') 1704103200 ''Backup_Q1'' 1 True])
          (new_participant (Some ''u1'')) of
      Inl e \<Rightarrow> False
    | Inr (participant, n', started, answered_once, finished) \<Rightarrow>
        answered participant (1, ''Backup'') = Some True \<and>
        correct_first_try participant (1, ''Backup'') = Some True)
   \<and> (\<exists>matched_skill. match_skills str_lower (Integer n) name skills [] = Inr matched_skill \<and>
      (matched_skill \<noteq> [] \<longleftrightarrow>
         (\<exists>skill session. skill \<in> set skills \<and> 1 \<le> session \<and> session \<le> nat n \<and>
            name = str_lower (activity_name skill session))) \<and>
      (matched_skill \<noteq> [] \<longrightarrow>
         name = str_lower matched_skill \<and>
         (\<exists>skill session. skill \<in> set skills \<and> 1 \<le> session \<and> session \<le> nat n \<and>
            matched_skill = activity_name skill session)))"
  using scenario_lower_case [of str_lower] scenario_cell
    match_skills_characterised [of str_lower n name skills]
  by (intro conjI impI)

theorem C1_lower_case_label_witness:
  "lower_ascii ''Backup_Q1'' = ''backup_q1'' \<and>
   import_datashop lower_ascii [''Backup''] (Integer 1) strptime_2024
     [context_element ''u1'' ''2024-01-01 10:00:00'' ''Module backup_q1.'',
      tutor_element ''CORRECT'']
   = Inr [xml_table_row (Some ''u1'') 1704103200 ''Backup_Q1'' True] \<and>
   match_skills lower_ascii (Integer 1) ''backup_q1'' [''Backup''] [] = Inr ''Backup_Q1''"
proof -
  note c1 = C1_lower_case_label_gives_one_record [of lower_ascii 1 "''backup_q1''" "[''Backup'']"]
  have low: "lower_ascii ''Backup_Q1'' = ''backup_q1''" by code_simp
  with c1 have table: "import_datashop lower_ascii [''Backup''] (Integer 1) strptime_2024
     [context_element ''u1'' ''2024-01-01 10:00:00'' ''Module backup_q1.'',
      tutor_element ''CORRECT'']
   = Inr [xml_table_row (Some ''u1'') 1704103200 ''Backup_Q1'' True]"
    by blast
  from c1
  obtain m where m: "match_skills lower_ascii (Integer 1) ''backup_q1'' [''Backup''] [] = Inr m"
    and iff: "m \<noteq> [] \<longleftrightarrow>
         (\<exists>skill session. skill \<in> set [''Backup''] \<and> 1 \<le> session \<and> session \<le> nat 1 \<and>
            ''backup_q1'' = lower_ascii (activity_name skill session))"
    and imp: "m \<noteq> [] \<longrightarrow> ''backup_q1'' = lower_ascii m \<and>
         (\<exists>skill session. skill \<in> set [''Backup''] \<and> 1 \<le> session \<and> session \<le> nat 1 \<and>
            m = activity_name skill session)"
    by blast
  have hit: "''backup_q1'' = lower_ascii (activity_name ''Backup'' 1)" by code_simp
  have "m \<noteq> []" unfolding iff using hit by (intro exI [of _ "''Backup''"] exI [of _ 1]) simp
  with imp obtain skill session where
    "skill \<in> set [''Backup'']" "1 \<le> session" "session \<le> nat 1" "m = activity_name skill session"
    by blast
  then have "m = activity_name ''Backup'' 1" by (simp add: le_antisym)
  also have "\<dots> = ''Backup_Q1''" by code_simp
  finally show ?thesis using m low table by simp
qed

subsection \<open>The reconciler\<close>




lemma injective_values:
  "distinct (map snd al) \<Longrightarrow> map_of al b = Some a \<Longrightarrow> map_of al b' = Some a \<Longrightarrow> b = b'"
proof -
  assume d: "distinct (map snd al)" and "map_of al b = Some a" "map_of al b' = Some a"
  then have "(b, a) \<in> set al" "(b', a) \<in> set al" by (auto dest: map_of_SomeD)
  moreover from d have "inj_on snd (set al)" by (simp add: distinct_map)
  ultimately have "(b, a) = (b', a)" by (intro inj_onD [of snd "set al"]) simp_all
  then show ?thesis by simp
qed

text \<open>
  Claim C4. \<open>IDs\<close> is the set of the student IDs of the XML table, iterated in some order
  without repetition. Whenever the call returns a mapping, it is a dict (no pseudonym
  twice), no two pseudonyms have the same ID, and every entry is a pseudonym searched
  whose match fraction with its ID is above 0.9, so that a pseudonym without such an ID
  is not in the mapping. The call returns a mapping when no student ID is \<open>None\<close> or
  there is no pseudonym; with a student ID \<open>None\<close> and a pseudonym it ends in the
  division by zero, and no mapping is produced.
\<close>

theorem C4_mapping_is_injective:
  assumes "distinct IDs_order"
    and "set IDs_order = Student_ID ` set xml_data"
  shows "(None \<notin> set IDs_order \<or> pseudonyms_order = [] \<longrightarrow>
            (\<exists>mapping. infer_mapping_pseudonym_ID IDs_order pseudonyms_order xml_data raw_data
                         = Inr mapping)) \<and>
         (None \<in> set IDs_order \<and> pseudonyms_order \<noteq> [] \<longrightarrow>
            infer_mapping_pseudonym_ID IDs_order pseudonyms_order xml_data raw_data
              = Inl ZeroDivisionError) \<and>
         (\<forall>mapping.
            infer_mapping_pseudonym_ID IDs_order pseudonyms_order xml_data raw_data = Inr mapping
            \<longrightarrow>
              distinct (map fst mapping) \<and>
              (\<forall>b b' a a'. b \<noteq> b' \<and> map_of mapping b = Some a \<and> map_of mapping b' = Some a'
                             \<longrightarrow> a \<noteq> a') \<and>
              (\<forall>b a. map_of mapping b = Some a \<longrightarrow>
                       b \<in> set pseudonyms_order \<and> a \<in> set IDs_order \<and>
                       match_fraction (ID_entries_times a xml_data) (entries_times b raw_data)
                         > 9 / 10))"
proof -
  let ?result = "infer_mapping_pseudonym_ID IDs_order pseudonyms_order xml_data raw_data"
  let ?good = "\<lambda>mapping. distinct (map fst mapping) \<and>
              (\<forall>b b' a a'. b \<noteq> b' \<and> map_of mapping b = Some a \<and> map_of mapping b' = Some a'
                             \<longrightarrow> a \<noteq> a') \<and>
              (\<forall>b a. map_of mapping b = Some a \<longrightarrow>
                       b \<in> set pseudonyms_order \<and> a \<in> set IDs_order \<and>
                       match_fraction (ID_entries_times a xml_data) (entries_times b raw_data)
                         > 9 / 10)"
  have ne: "\<forall>k \<in> set IDs_order. k \<noteq> None \<longrightarrow> ID_entries_times k xml_data \<noteq> []"
  proof (intro ballI impI)
    fix k assume "k \<in> set IDs_order" and k: "k \<noteq> None"
    with assms(2) obtain r where "r \<in> set xml_data" "Student_ID r = k" by auto
    with k have "r \<in> set (filter (\<lambda>r. k \<noteq> None \<and> Student_ID r = k) xml_data)" by simp
    then show "ID_entries_times k xml_data \<noteq> []"
      unfolding ID_entries_times_def by (metis empty_iff list.map_disc_iff list.set(1))
  qed
  have plain: "\<exists>mapping. ?result = Inr mapping \<and> ?good mapping" if "None \<notin> set IDs_order"
  proof -
    from ne that have "\<forall>k \<in> set IDs_order. ID_entries_times k xml_data \<noteq> []" by metis
    from search_IDs_invariant [OF assms(1) this, of "[]" pseudonyms_order raw_data]
    obtain m where m: "search_IDs IDs_order pseudonyms_order xml_data raw_data [] = Inr m"
      "distinct (map fst m)" "distinct (map snd m)"
      "\<forall>e \<in> set m. e \<in> set [] \<or>
          (snd e \<in> set IDs_order \<and> fst e \<in> set pseudonyms_order \<and>
           match_fraction (ID_entries_times (snd e) xml_data) (entries_times (fst e) raw_data)
             > 9 / 10)"
      by auto
    have "\<forall>b b' a a'. b \<noteq> b' \<and> map_of m b = Some a \<and> map_of m b' = Some a' \<longrightarrow> a \<noteq> a'"
      using injective_values [OF m(3)] by blast
    moreover have "\<forall>b a. map_of m b = Some a \<longrightarrow>
                      b \<in> set pseudonyms_order \<and> a \<in> set IDs_order \<and>
                      match_fraction (ID_entries_times a xml_data) (entries_times b raw_data)
                        > 9 / 10"
      using m(4) by (fastforce dest: map_of_SomeD)
    ultimately show ?thesis
      using m(1,2) by (simp add: infer_mapping_pseudonym_ID_def)
  qed
  have none: "?result = Inr []" if "pseudonyms_order = []"
    using that by (simp add: infer_mapping_pseudonym_ID_def search_IDs_no_pseudonyms)
  have fails: "?result = Inl ZeroDivisionError"
    if "None \<in> set IDs_order" "pseudonyms_order \<noteq> []"
    using that ne by (simp add: infer_mapping_pseudonym_ID_def search_IDs_None)
  have returns: "None \<notin> set IDs_order \<or> pseudonyms_order = [] \<longrightarrow> (\<exists>mapping. ?result = Inr mapping)"
    using plain none by blast
  have good: "\<forall>mapping. ?result = Inr mapping \<longrightarrow> ?good mapping"
  proof (intro allI impI)
    fix mapping assume r: "?result = Inr mapping"
    show "?good mapping"
    proof (cases "pseudonyms_order = []")
      case True
      with none r have "mapping = []" by simp
      then show ?thesis by simp
    next
      case False
      with fails r have "None \<notin> set IDs_order" by auto
      from plain [OF this] r show ?thesis by auto
    qed
  qed
  from returns fails good show ?thesis by blast
qed

theorem C4_mapping_is_injective_witness:
  "distinct [Some ''alice'', Some ''bob''] \<and>
   set [Some ''alice'', Some ''bob''] = Student_ID `
     set [xml_table_row (Some ''alice'') 36000 ''Backup_Q1'' True,
          xml_table_row (Some ''bob'') 50000 ''Backup_Q1'' True,
          xml_table_row (Some ''alice'') 36300 ''Spam_Q1'' False] \<and>
   None \<notin> set [Some ''alice'', Some ''bob''] \<and>
   infer_mapping_pseudonym_ID [Some ''alice'', Some ''bob''] [''p3'', ''p7'', ''p9'']
     [xml_table_row (Some ''alice'') 36000 ''Backup_Q1'' True,
      xml_table_row (Some ''bob'') 50000 ''Backup_Q1'' True,
      xml_table_row (Some ''alice'') 36300 ''Spam_Q1'' False]
     [table_row ''p7'' 36010 ''Backup_Q1'' 1 True, table_row ''p7'' 36305 ''Spam_Q1'' 1 False,
      table_row ''p3'' 50020 ''Backup_Q1'' 1 True, table_row ''p9'' 90000 ''Backup_Q1'' 1 True]
   = Inr [(''p7'', Some ''alice''), (''p3'', Some ''bob'')] \<and>
   map_of [(''p7'', Some ''alice''), (''p3'', Some ''bob'')] ''p7'' = Some (Some ''alice'') \<and>
   map_of [(''p7'', Some ''alice''), (''p3'', Some ''bob'')] ''p3'' = Some (Some ''bob'') \<and>
   Some ''alice'' \<noteq> Some ''bob'' \<and>
   match_fraction
     (ID_entries_times (Some ''bob'')
        [xml_table_row (Some ''alice'') 36000 ''Backup_Q1'' True,
         xml_table_row (Some ''bob'') 50000 ''Backup_Q1'' True,
         xml_table_row (Some ''alice'') 36300 ''Spam_Q1'' False])
     (entries_times ''p3''
        [table_row ''p7'' 36010 ''Backup_Q1'' 1 True, table_row ''p7'' 36305 ''Spam_Q1'' 1 False,
         table_row ''p3'' 50020 ''Backup_Q1'' 1 True, table_row ''p9'' 90000 ''Backup_Q1'' 1 True])
     > 9 / 10"
proof -
  let ?ids = "[Some ''alice'', Some ''bob'']"
  let ?xml = "[xml_table_row (Some ''alice'') 36000 ''Backup_Q1'' True,
          xml_table_row (Some ''bob'') 50000 ''Backup_Q1'' True,
          xml_table_row (Some ''alice'') 36300 ''Spam_Q1'' False]"
  let ?raw = "[table_row ''p7'' 36010 ''Backup_Q1'' 1 True, table_row ''p7'' 36305 ''Spam_Q1'' 1 False,
      table_row ''p3'' 50020 ''Backup_Q1'' 1 True, table_row ''p9'' 90000 ''Backup_Q1'' 1 True]"
  let ?m = "[(''p7'', Some ''alice''), (''p3'', Some ''bob'')]"
  have h1: "distinct ?ids" by simp
  have h2: "set ?ids = Student_ID ` set ?xml"
    by (auto simp: xml_table_row_def)
  have h3: "None \<notin> set ?ids" by simp
  have e: "infer_mapping_pseudonym_ID ?ids [''p3'', ''p7'', ''p9''] ?xml ?raw = Inr ?m"
    by code_simp
  have p7: "map_of ?m ''p7'' = Some (Some ''alice'')" and p3: "map_of ?m ''p3'' = Some (Some ''bob'')"
    by simp_all
  note c4 = C4_mapping_is_injective [OF h1 h2, of "[''p3'', ''p7'', ''p9'']" ?raw]
  from c4 e have inj: "\<forall>b b' a a'. b \<noteq> b' \<and> map_of ?m b = Some a \<and> map_of ?m b' = Some a'
                             \<longrightarrow> a \<noteq> a'"
    and conf: "\<forall>b a. map_of ?m b = Some a \<longrightarrow>
                 match_fraction (ID_entries_times a ?xml) (entries_times b ?raw) > 9 / 10"
    by blast+
  have ne: "''p7'' \<noteq> ''p3''" by simp
  from inj ne p7 p3 have d: "Some ''alice'' \<noteq> Some ''bob''" by blast
  from conf p3 have f: "match_fraction (ID_entries_times (Some ''bob'') ?xml)
                          (entries_times ''p3'' ?raw) > 9 / 10"
    by blast
  from h1 h2 h3 e p7 p3 d f show ?thesis by blast
qed

subsection \<open>Inferring the session count\<close>

text \<open>
  Claim C7. With results read and at least one skill, the inferred session count is
  the maximum over the skills of the per-skill probe; the probe of a skill is the
  number \<open>n\<close> for which \<open><skill>_Q1\<close> to \<open><skill>_Q<n>\<close> are all in the table and
  \<open><skill>_Q<n+1>\<close> is not, whatever names follow the gap.
\<close>

theorem C7_session_count_by_contiguous_probing:
  "skills \<noteq> [] \<Longrightarrow>
   infer_n_sessions_from_full_results True (Some rows) skills
     = Inr (Max ((\<lambda>skill. probe skill (map Activity_Title rows) 0) ` set skills))
   \<and> (\<forall>skill.
        (\<forall>k. 1 \<le> k \<and> k \<le> probe skill (map Activity_Title rows) 0
               \<longrightarrow> activity_name skill k \<in> set (map Activity_Title rows))
        \<and> activity_name skill (probe skill (map Activity_Title rows) 0 + 1)
             \<notin> set (map Activity_Title rows))"
proof -
  assume "skills \<noteq> []"
  then obtain skill rest where sk: "skills = skill # rest" by (cases skills) auto
  have "infer_n_sessions_from_full_results True (Some rows) skills
     = Inr (Max ((\<lambda>skill. probe skill (map Activity_Title rows) 0) ` set skills))"
    unfolding sk infer_n_sessions_from_full_results_def
    by (simp add: fold_max_Max Let_def del: Max_insert)
  moreover have "\<forall>skill.
        (\<forall>k. 1 \<le> k \<and> k \<le> probe skill (map Activity_Title rows) 0
               \<longrightarrow> activity_name skill k \<in> set (map Activity_Title rows))
        \<and> activity_name skill (probe skill (map Activity_Title rows) 0 + 1)
             \<notin> set (map Activity_Title rows)"
    using probe_result [of 0 _ "map Activity_Title rows"]
    by (metis Suc_le_eq One_nat_def)
  ultimately show ?thesis by blast
qed

theorem C7_session_count_witness:
  "[''Backup'', ''Password''] \<noteq> [] \<and>
   infer_n_sessions_from_full_results True
     (Some [table_row ''u1'' 0 ''Password_Q1'' 1 True, table_row ''u1'' 0 ''Backup_Q3'' 1 True,
            table_row ''u1'' 0 ''Password_Q2'' 1 True, table_row ''u1'' 0 ''Backup_Q1'' 1 True])
     [''Backup'', ''Password''] = Inr 2"
proof -
  let ?rows = "[table_row ''u1'' 0 ''Password_Q1'' 1 True, table_row ''u1'' 0 ''Backup_Q3'' 1 True,
            table_row ''u1'' 0 ''Password_Q2'' 1 True, table_row ''u1'' (0::int) ''Backup_Q1'' 1 True]"
  have ne: "[''Backup'', ''Password''] \<noteq> []" by simp
  have b: "probe ''Backup'' (map Activity_Title ?rows) 0 = 1" by code_simp
  have p: "probe ''Password'' (map Activity_Title ?rows) 0 = 2" by code_simp
  from C7_session_count_by_contiguous_probing [OF ne, of ?rows]
  have "infer_n_sessions_from_full_results True (Some ?rows) [''Backup'', ''Password'']
     = Inr (Max ((\<lambda>skill. probe skill (map Activity_Title ?rows) 0) ` set [''Backup'', ''Password'']))"
    by blast
  also have "\<dots> = Inr 2" using b p by simp
  finally show ?thesis using ne by blast
qed

subsection \<open>The cumulative series\<close>

text \<open>
  Claim C8. The series returned by \<open>learning_module._cumulative_answers_by_date\<close> has
  strictly ascending dates and non-decreasing counts; it is empty exactly when no
  participant of the group has a populated cell, and otherwise its last count is the
  number of populated cells of the group. The same holds for the series that
  \<open>participant._cumulative_answers_by_date\<close> stores for one participant.
\<close>

theorem C8_cumulative_series_monotone_and_total:
  "sorted_wrt (<) (map fst (cumulative_answers_by_date participants)) \<and>
   sorted (map snd (cumulative_answers_by_date participants)) \<and>
   (cumulative_answers_by_date participants = []
      \<longleftrightarrow> list_all (\<lambda>p. populated_cells p = []) participants) \<and>
   (cumulative_answers_by_date participants \<noteq> [] \<longrightarrow>
      snd (last (cumulative_answers_by_date participants))
        = sum_list (map (\<lambda>p. length (populated_cells p)) participants)) \<and>
   sorted_wrt (<) (map fst (accumulated_by_date (participant_cumulative_answers_by_date p))) \<and>
   sorted (map snd (accumulated_by_date (participant_cumulative_answers_by_date p))) \<and>
   (accumulated_by_date (participant_cumulative_answers_by_date p) \<noteq> [] \<longrightarrow>
      snd (last (accumulated_by_date (participant_cumulative_answers_by_date p)))
        = length (populated_cells p))"
proof -
  let ?dates = "concat (map answer_dates_given participants)"
  let ?group = "cumulative_series ?dates"
  let ?single = "cumulative_series (answer_dates_given p)"
  note g = cumulative_series_props [of ?dates]
  note s = cumulative_series_props [of "answer_dates_given p"]
  have a: "cumulative_answers_by_date participants = ?group"
    by (simp add: cumulative_answers_by_date_def)
  have b: "accumulated_by_date (participant_cumulative_answers_by_date p) = ?single"
    by (simp add: participant_cumulative_answers_by_date_def)
  have g1: "sorted_wrt (<) (map fst ?group)" and g2: "sorted (map snd ?group)"
    using g by blast+
  have g3: "?group = [] \<longleftrightarrow> list_all (\<lambda>p. populated_cells p = []) participants"
    using g group_dates_empty [of participants] by blast
  have g4: "?group \<noteq> [] \<longrightarrow>
              snd (last ?group) = sum_list (map (\<lambda>p. length (populated_cells p)) participants)"
  proof
    assume "?group \<noteq> []"
    with g have "snd (last ?group) = length ?dates" by blast
    then show "snd (last ?group) = sum_list (map (\<lambda>p. length (populated_cells p)) participants)"
      by (simp only: length_group_dates)
  qed
  have s1: "sorted_wrt (<) (map fst ?single)" and s2: "sorted (map snd ?single)"
    using s by blast+
  have s4: "?single \<noteq> [] \<longrightarrow> snd (last ?single) = length (populated_cells p)"
  proof
    assume "?single \<noteq> []"
    with s have "snd (last ?single) = length (answer_dates_given p)" by blast
    then show "snd (last ?single) = length (populated_cells p)"
      by (simp only: length_answer_dates_given)
  qed
  show ?thesis
    unfolding a b using g1 g2 g3 g4 s1 s2 s4 by blast
qed

theorem C8_cumulative_series_witness:
  "cumulative_answers_by_date [sample_participant_1, sample_participant_2]
     = [(1704103200, 1), (1704103500, 3)] \<and>
   snd (last (cumulative_answers_by_date [sample_participant_1, sample_participant_2]))
     = sum_list (map (\<lambda>p. length (populated_cells p))
                     [sample_participant_1, sample_participant_2]) \<and>
   accumulated_by_date (participant_cumulative_answers_by_date sample_participant_1)
     = [(1704103200, 1), (1704103500, 2)] \<and>
   snd (last (accumulated_by_date (participant_cumulative_answers_by_date sample_participant_1)))
     = length (populated_cells sample_participant_1)"
proof -
  have g: "cumulative_answers_by_date [sample_participant_1, sample_participant_2]
     = [(1704103200, 1), (1704103500, 3)]"
    by code_simp
  have s: "accumulated_by_date (participant_cumulative_answers_by_date sample_participant_1)
     = [(1704103200, 1), (1704103500, 2)]"
    by code_simp
  from g have gne: "cumulative_answers_by_date [sample_participant_1, sample_participant_2] \<noteq> []"
    by simp
  from s have sne: "accumulated_by_date (participant_cumulative_answers_by_date sample_participant_1) \<noteq> []"
    by simp
  from C8_cumulative_series_monotone_and_total
         [of "[sample_participant_1, sample_participant_2]" sample_participant_1] gne sne
  have "snd (last (cumulative_answers_by_date [sample_participant_1, sample_participant_2]))
     = sum_list (map (\<lambda>p. length (populated_cells p))
                     [sample_participant_1, sample_participant_2])"
    and "snd (last (accumulated_by_date (participant_cumulative_answers_by_date sample_participant_1)))
     = length (populated_cells sample_participant_1)"
    by blast+
  with g s show ?thesis by blast
qed

subsection \<open>A context without a problem name\<close>

text \<open>
  Against claim C9: a context whose dataset has no problem below it, followed by a tutor
  message. The tutor message yields no record and the call ends normally, as the claim
  says, but nothing is printed: the list of printed lines is empty.
\<close>

theorem C9_no_notice_is_printed:
  "datashop_columns lower_ascii [''Backup''] (Integer 1) strptime_2024
     [context_without_problem ''u1'' ''2024-01-01 10:00:00'', tutor_element ''CORRECT'']
   = Inr (empty_columns, [])"
  by code_simp

text \<open>
  Claim C9, amended: no notice is logged. Let \<open>c\<close> be a context element whose meta data
  can be read (user id, and a time that parses) and whose problem-name path is missing a
  field, and let \<open>msgs\<close> be elements other than context elements. From any state of the
  loop, \<open>c\<close> followed by \<open>msgs\<close> is processed without an exception; the answers and the
  printed lines are as before; the loop is left waiting for the next context; and
  whatever follows is processed exactly as if \<open>msgs\<close> had not been in the log.
\<close>

theorem C9_messages_after_malformed_context_are_skipped:
  assumes "tag c = ''context_message''"
    and "item (findall ''meta'' c) 0 = Inr meta"
    and "item (findall ''user_id'' meta) 0 = Inr user_id"
    and "item (findall ''time'' meta) 0 = Inr time_el"
    and "elem_text time_el = Some time_str"
    and "strptime time_str = Some t"
    and "problem_name_element c = Inl e"
    and "list_all (\<lambda>m. tag m \<noteq> ''context_message'') msgs"
  shows "\<exists>s'. parse_children strptime (c # msgs) s = Inr s' \<and>
              answers s' = answers s \<and> printed s' = printed s \<and>
              wait_for_next_context_message s' \<and>
              (\<forall>rest. parse_children strptime (c # msgs @ rest) s
                         = parse_children strptime rest s') \<and>
              (\<forall>rest. parse_children strptime (c # msgs @ rest) s
                         = parse_children strptime (c # rest) s)"
proof -
  let ?s' = "s\<lparr>anon_id := Some (elem_text user_id), time := Some t,
               wait_for_next_context_message := True\<rparr>"
  from assms(8) have m: "\<forall>m \<in> set msgs. tag m \<noteq> ''context_message''"
    by (simp add: list_all_iff)
  have skip: "parse_children strptime (c # msgs @ rest) s = parse_children strptime rest ?s'"
    for rest
    using assms(1-7) m by (rule skipped_after_context)
  have none: "parse_children strptime (c # rest) s = parse_children strptime rest ?s'"
    for rest
    using skipped_after_context
            [where strptime = strptime and msgs = "[]" and rest = rest and s = s, OF assms(1-7)]
    by simp
  have "parse_children strptime (c # msgs) s = Inr ?s'"
    using skip [of "[]"] by simp
  moreover have "answers ?s' = answers s" "printed ?s' = printed s"
    "wait_for_next_context_message ?s'"
    by simp_all
  ultimately show ?thesis using skip none by (intro exI [of _ ?s']) simp
qed

theorem C9_messages_after_malformed_context_witness:
  "tag (context_without_problem ''u1'' ''2024-01-01 10:00:00'') = ''context_message'' \<and>
   problem_name_element (context_without_problem ''u1'' ''2024-01-01 10:00:00'')
     = Inl IndexError \<and>
   strptime_2024 ''2024-01-01 10:00:00'' = Some 1704103200 \<and>
   list_all (\<lambda>m. tag m \<noteq> ''context_message'') [tutor_element ''CORRECT'', tutor_element ''HINT''] \<and>
   (\<exists>s'. parse_children strptime_2024
            [context_without_problem ''u1'' ''2024-01-01 10:00:00'',
             tutor_element ''CORRECT'', tutor_element ''HINT''] initial_locals = Inr s' \<and>
         answers s' = [] \<and> printed s' = [])"
proof -
  let ?c = "context_without_problem ''u1'' ''2024-01-01 10:00:00''"
  let ?meta = "Element ''meta'' None
          [Element ''user_id'' (Some ''u1'') [], Element ''time'' (Some ''2024-01-01 10:00:00'') []]"
  have h1: "tag ?c = ''context_message''" by (simp add: context_without_problem_def)
  have h2: "item (findall ''meta'' ?c) 0 = Inr ?meta"
    by (simp add: context_without_problem_def item_def findall_def)
  have h3: "item (findall ''user_id'' ?meta) 0 = Inr (Element ''user_id'' (Some ''u1'') [])"
    by (simp add: item_def findall_def)
  have h4: "item (findall ''time'' ?meta) 0 = Inr (Element ''time'' (Some ''2024-01-01 10:00:00'') [])"
    by (simp add: item_def findall_def)
  have h5: "elem_text (Element ''time'' (Some ''2024-01-01 10:00:00'') []) = Some ''2024-01-01 10:00:00''"
    by simp
  have h6: "strptime_2024 ''2024-01-01 10:00:00'' = Some 1704103200"
    by (simp add: strptime_2024_def)
  have h7: "problem_name_element ?c = Inl IndexError"
    by (simp add: problem_name_element_def context_without_problem_def item_def findall_def)
  have h8: "list_all (\<lambda>m. tag m \<noteq> ''context_message'') [tutor_element ''CORRECT'', tutor_element ''HINT'']"
    by (simp add: tutor_element_def)
  from C9_messages_after_malformed_context_are_skipped
         [where strptime = strptime_2024 and s = initial_locals, OF h1 h2 h3 h4 h5 h6 h7 h8]
  obtain s' where "parse_children strptime_2024
            [?c, tutor_element ''CORRECT'', tutor_element ''HINT''] initial_locals = Inr s'"
    "answers s' = answers initial_locals" "printed s' = printed initial_locals"
    by blast
  then have "\<exists>s'. parse_children strptime_2024
            [?c, tutor_element ''CORRECT'', tutor_element ''HINT''] initial_locals = Inr s' \<and>
         answers s' = [] \<and> printed s' = []"
    by (auto simp: initial_locals_def)
  with h1 h7 h6 h8 show ?thesis by blast
qed

subsection \<open>Parsing without a session count\<close>

lemma collect_problems_no_skills: "collect_problems str_lower [] n a problem cols = Inr cols"
  by (induction problem arbitrary: cols) auto

lemma collect_answers_no_skills: "collect_answers str_lower [] n ans cols = Inr cols"
  by (induction ans arbitrary: cols) (auto simp: collect_problems_no_skills)

lemma data_frame_empty: "data_frame empty_columns = []"
  by (simp add: data_frame_def empty_columns_def)

lemma import_datashop_NaN:
  "import_datashop str_lower skills NaN strptime events =
     (case parse_children strptime events initial_locals of
        Inl e \<Rightarrow> Inl e
      | Inr s \<Rightarrow> if skills = [] \<or> answers s = [] then Inr [] else Inl TypeError)"
proof (cases "parse_children strptime events initial_locals")
  case (Inl e)
  then show ?thesis by (simp add: import_datashop_def datashop_columns_def)
next
  case (Inr s)
  have "registered (answers initial_locals)" by (simp add: registered_def initial_locals_def)
  then have reg: "registered (answers s)" using Inr by (rule parse_children_registered)
  show ?thesis
  proof (cases "skills = [] \<or> answers s = []")
    case True
    then have "collect_answers str_lower skills NaN (answers s) empty_columns = Inr empty_columns"
      by (auto simp: collect_answers_no_skills)
    with Inr True show ?thesis
      by (simp add: import_datashop_def datashop_columns_def data_frame_empty)
  next
    case False
    with reg have "collect_answers str_lower skills NaN (answers s) empty_columns = Inl TypeError"
      by (simp add: collect_answers_NaN)
    with Inr False show ?thesis
      by (simp add: import_datashop_def datashop_columns_def)
  qed
qed

lemma import_datashop_Integer:
  "(\<exists>frame. import_datashop str_lower skills (Integer k) strptime events = Inr frame)
     \<longleftrightarrow> (\<exists>s. parse_children strptime events initial_locals = Inr s)"
proof (cases "parse_children strptime events initial_locals")
  case (Inl e)
  then show ?thesis by (simp add: import_datashop_def datashop_columns_def)
next
  case (Inr s)
  from collect_answers_Integer obtain c where
    "collect_answers str_lower skills (Integer k) (answers s) empty_columns = Inr c" by blast
  with Inr show ?thesis by (simp add: import_datashop_def datashop_columns_def)
qed

text \<open>
  Against claim C10: a log whose only context has no problem name registers no subject,
  the matching step is never reached, and \<open>import_datashop\<close> completes with the session
  count still at NaN, returning the empty table.
\<close>

theorem C10_completes_without_session_count:
  "import_datashop lower_ascii [''Backup''] NaN strptime_2024
     [context_without_problem ''u1'' ''2024-01-01 10:00:00'', tutor_element ''CORRECT'']
   = Inr []"
  by code_simp

text \<open>
  Claim C10, amended. With the session count left at NaN, \<open>import_datashop\<close> ends with
  a TypeError whenever the first loop has completed and the matching step is reached,
  that is, whenever a subject has been registered and the module has a skill:
  \<open>range(self.n_sessions)\<close> is the first thing evaluated there, and no session count is
  inferred. When the step is not reached the call completes with the empty table.
  With an integer session count the call completes exactly when the first loop does.
\<close>

theorem C10_session_count_needed_by_parser:
  "import_datashop str_lower skills NaN strptime events =
     (case parse_children strptime events initial_locals of
        Inl e \<Rightarrow> Inl e
      | Inr s \<Rightarrow> if skills = [] \<or> answers s = [] then Inr [] else Inl TypeError)
   \<and> ((\<exists>frame. import_datashop str_lower skills (Integer k) strptime events = Inr frame)
        \<longleftrightarrow> (\<exists>s. parse_children strptime events initial_locals = Inr s))"
  using import_datashop_NaN import_datashop_Integer by blast

theorem C10_session_count_needed_witness:
  "import_datashop lower_ascii [''Backup''] NaN strptime_2024
     [context_element ''u1'' ''2024-01-01 10:00:00'' ''Module backup_q1.'',
      tutor_element ''CORRECT''] = Inl TypeError"
proof -
  have "(case parse_children strptime_2024
            [context_element ''u1'' ''2024-01-01 10:00:00'' ''Module backup_q1.'',
             tutor_element ''CORRECT''] initial_locals of
        Inl e \<Rightarrow> Inl e
      | Inr s \<Rightarrow> if [''Backup''] = [] \<or> answers s = [] then Inr [] else Inl TypeError)
        = (Inl TypeError :: error + string option xml_row list)"
    by code_simp
  with C10_session_count_needed_by_parser [of lower_ascii "[''Backup'']" strptime_2024
        "[context_element ''u1'' ''2024-01-01 10:00:00'' ''Module backup_q1.'',
          tutor_element ''CORRECT'']" 1]
  show ?thesis by simp
qed

end
